theory Spec2Isabelle
  imports Complex_Main
begin

section \<open>Values of the JavaScript runtime\<close>

text \<open>
  The classes of \<^verbatim>\<open>HttpClient.ts\<close> and the two built-in classes they touch.
  \<open>extends\<close> is the \<^verbatim>\<open>extends\<close> clause of each class declaration; the built-in
  \<open>SyntaxError\<close> extends \<open>Error\<close>, and \<open>Error\<close> is a root.
\<close>

datatype js_class =
    Error
  | SyntaxError
  | HttpClientError
  | HttpSocketError
  | HttpStatusError
  | HttpContentTypeError
  | JSONParseError

fun extends :: "js_class \<Rightarrow> js_class option" where
  "extends Error = None"
| "extends SyntaxError = Some Error"
| "extends HttpClientError = Some Error"
| "extends HttpSocketError = Some HttpClientError"
| "extends HttpStatusError = Some HttpClientError"
| "extends HttpContentTypeError = Some HttpClientError"
| "extends JSONParseError = Some Error"

fun class_depth :: "js_class \<Rightarrow> nat" where
  "class_depth c =
     (case extends c of None \<Rightarrow> 0
      | Some p \<Rightarrow> (case extends p of None \<Rightarrow> 1 | Some _ \<Rightarrow> 2))"

text \<open>\<open>is_subclass c d\<close>: walking up the \<open>extends\<close> chain from \<open>c\<close> reaches \<open>d\<close>.\<close>

function is_subclass :: "js_class \<Rightarrow> js_class \<Rightarrow> bool" where
  "is_subclass c d =
     (if c = d then True
      else (case extends c of None \<Rightarrow> False | Some p \<Rightarrow> is_subclass p d))"
  by pat_completeness auto
termination
proof (relation "measure (\<lambda>(c, d). class_depth c)")
  show "wf (measure (\<lambda>(c, d). class_depth c))" by simp
next
  fix c d p :: js_class
  assume "extends c = Some p"
  then show "((p, d), (c, d)) \<in> measure (\<lambda>(c, d). class_depth c)"
    by (cases c) auto
qed

declare is_subclass.simps [simp del]

text \<open>
  The values the client rejects or throws with. Objects created by Node itself
  (\<^verbatim>\<open>net\<close>, \<^verbatim>\<open>https\<close>, a response stream) are plain \<open>Error\<close> objects with a
  message; \<^verbatim>\<open>JSON.parse\<close> throws a \<open>SyntaxError\<close>; the \<^verbatim>\<open>close\<close> event of a
  socket passes the boolean \<^verbatim>\<open>hadError\<close>; \<^verbatim>\<open>reject()\<close> without an argument
  rejects with \<^verbatim>\<open>undefined\<close>. The last three constructors are the \<^verbatim>\<open>new\<close>
  expressions of the source with their constructor arguments
  (\<^verbatim>\<open>statusMessage?\<close>, \<^verbatim>\<open>statusCode?\<close>; \<^verbatim>\<open>message\<close>, \<^verbatim>\<open>responseBody\<close>).
\<close>

datatype thrown =
    Error_obj string
  | SyntaxError_obj string
  | Bool_val bool
  | Undefined_val
  | HttpStatusError_obj "string option" "int option"
  | HttpContentTypeError_obj "string option" "int option"
  | JSONParseError_obj string string

fun class_of :: "thrown \<Rightarrow> js_class option" where
  "class_of (Error_obj _) = Some Error"
| "class_of (SyntaxError_obj _) = Some SyntaxError"
| "class_of (Bool_val _) = None"
| "class_of Undefined_val = None"
| "class_of (HttpStatusError_obj _ _) = Some HttpStatusError"
| "class_of (HttpContentTypeError_obj _ _) = Some HttpContentTypeError"
| "class_of (JSONParseError_obj _ _) = Some JSONParseError"

definition instanceof :: "thrown \<Rightarrow> js_class \<Rightarrow> bool" where
  "instanceof v k = (case class_of v of None \<Rightarrow> False | Some c \<Rightarrow> is_subclass c k)"

text \<open>
  Decoded JSON (\<^verbatim>\<open>JSONResponseT = Record<string, unknown>\<close>). An object keeps its
  properties in insertion order. A number is the rational it denotes; the rounding of
  IEEE doubles is not part of the model.
\<close>

datatype json =
    JNull
  | JBool bool
  | JNumber rat
  | JString string
  | JArray "json list"
  | JObject "(string \<times> json) list"

text \<open>
  What the client takes from the runtime rather than from its own code:
  \<^verbatim>\<open>JSON.parse\<close> (returns the value or throws), \<^verbatim>\<open>Buffer.toString('utf8')\<close>
  on the concatenated chunks, and the decimal text \<^verbatim>\<open>JSON.stringify\<close> prints for a
  number that is not an integer.
\<close>

record runtime =
  JSON_parse :: "string \<Rightarrow> thrown + json"
  toString_utf8 :: "string \<Rightarrow> string"
  fraction_toString :: "rat \<Rightarrow> string"

section \<open>The HTTP client (HttpClient.ts)\<close>

datatype MethodT = GetBalance | CreateTask | GetTaskResult

fun method_name :: "MethodT \<Rightarrow> string" where
  "method_name GetBalance = ''getBalance''"
| "method_name CreateTask = ''createTask''"
| "method_name GetTaskResult = ''getTaskResult''"

datatype ResponseContentType = CT_json | CT_text

fun content_type_value :: "ResponseContentType \<Rightarrow> string" where
  "content_type_value CT_json = ''application/json''"
| "content_type_value CT_text = ''text/plain''"

text \<open>
  \<^verbatim>\<open>expectedContentTypes: Array<ResponseContentType> | ResponseContentType\<close>.
\<close>

datatype expected_types = Many "ResponseContentType list" | One ResponseContentType

text \<open>The fields of \<^verbatim>\<open>ClientURL\<close> the client reads (the class is declared elsewhere).\<close>

record ClientURL =
  hostname :: string
  clientPort :: nat
  host :: string
  port :: nat

record https_Agent =
  agent_socket :: nat
  keepAlive :: bool
  agent_timeout :: "nat option"

record request =
  req_host :: string
  req_port :: nat
  req_path :: string
  req_user_agent :: string
  req_content_type :: string
  req_agent :: "https_Agent option"
  req_method :: string
  req_data :: string

text \<open>
  An \<^verbatim>\<open>IncomingMessage\<close> as the client reads it: status line, the
  \<^verbatim>\<open>content-type\<close> header, and the body stream, which emits its chunks and then
  either \<^verbatim>\<open>end\<close> (\<open>stream_error = None\<close>) or \<^verbatim>\<open>error\<close>.
\<close>

record IncomingMessage =
  statusCode :: "int option"
  statusMessage :: "string option"
  content_type :: "string option"
  chunks :: "string list"
  stream_error :: "string option"

datatype 'a promise = Pending | Resolved 'a | Rejected thrown

datatype socket_event = Ev_error string | Ev_close bool | Ev_connect

text \<open>
  Every method call and every I/O of the client is appended to \<open>calls\<close>, so that
  "this stage was not reached" is a statement about the trace.
\<close>

datatype call =
    Net_connect nat string
  | Https_request request
  | Call_responseStatusHandler
  | Call_responseContentTypeHandler
  | Call_responseBodyHandler
  | Call_JSON_parse string
  | Wait nat

text \<open>
  The client object. A socket is named by the index of the \<^verbatim>\<open>netConnect\<close> call
  that created it; \<open>connects ! i\<close> is the promise that call returned.
\<close>

record HttpClient =
  socket :: "nat option"
  agent :: "https_Agent option"
  timeout :: "nat option"
  UserAgent :: string
  ContentType :: string
  url :: ClientURL
  connects :: "unit promise list"
  calls :: "call list"

definition new_HttpClient :: "ClientURL \<Rightarrow> HttpClient" where
  "new_HttpClient u =
     \<lparr>socket = None, agent = None, timeout = None, UserAgent = [],
      ContentType = ''application/json'', url = u, connects = [], calls = []\<rparr>"

definition trace :: "call \<Rightarrow> HttpClient \<Rightarrow> HttpClient" where
  "trace e c = c\<lparr>calls := calls c @ [e]\<rparr>"

text \<open>Settling a promise that is already settled does nothing.\<close>

definition settle :: "nat \<Rightarrow> unit promise \<Rightarrow> HttpClient \<Rightarrow> HttpClient" where
  "settle i v c =
     (if i < length (connects c) \<and> connects c ! i = Pending
      then c\<lparr>connects := (connects c)[i := v]\<rparr> else c)"

subsection \<open>Transport socket manager\<close>

definition netConnect :: "HttpClient \<Rightarrow> nat \<times> HttpClient" where
  "netConnect c =
     (let i = length (connects c) in
      (i, trace (Net_connect (clientPort (url c)) (hostname (url c)))
            (c\<lparr>socket := Some i, connects := connects c @ [Pending]\<rparr>)))"

text \<open>
  The three listeners \<^verbatim>\<open>netConnect\<close> attaches to socket \<open>i\<close>. They read and write
  the fields of the client, whichever socket those hold by then.
\<close>

fun on_socket :: "nat \<Rightarrow> socket_event \<Rightarrow> HttpClient \<Rightarrow> HttpClient" where
  "on_socket i (Ev_error err) c =
     settle i (Rejected (Error_obj err)) (c\<lparr>socket := None, agent := None\<rparr>)"
| "on_socket i (Ev_close hadError) c =
     settle i (Rejected (Bool_val hadError)) (c\<lparr>socket := None, agent := None\<rparr>)"
| "on_socket i Ev_connect c =
     (case socket c of
        Some s \<Rightarrow>
          settle i (Resolved ())
            (c\<lparr>agent := Some \<lparr>agent_socket = s, keepAlive = True, agent_timeout = timeout c\<rparr>\<rparr>)
      | None \<Rightarrow> settle i (Rejected Undefined_val) c)"

text \<open>
  \<^verbatim>\<open>netConnectOrUse\<close> returns either \<^verbatim>\<open>Promise.resolve()\<close> or the promise of a
  new \<^verbatim>\<open>netConnect\<close>.
\<close>

datatype connect_promise = Promise_resolve | Connect_promise nat

definition netConnectOrUse :: "HttpClient \<Rightarrow> connect_promise \<times> HttpClient" where
  "netConnectOrUse c =
     (case socket c of
        Some s \<Rightarrow> (Promise_resolve, c)
      | None \<Rightarrow> (let (i, c') = netConnect c in (Connect_promise i, c')))"

subsection \<open>Request/response pipeline\<close>

definition responseStatusHandler ::
  "IncomingMessage \<Rightarrow> int \<Rightarrow> HttpClient \<Rightarrow> (thrown + IncomingMessage) \<times> HttpClient" where
  "responseStatusHandler res expectedStatus c =
     (if statusCode res = Some expectedStatus then Inr res
      else Inl (HttpStatusError_obj (statusMessage res) (statusCode res)),
      trace Call_responseStatusHandler c)"

text \<open>\<^verbatim>\<open>String.prototype.includes\<close>: the argument occurs as a contiguous substring.\<close>

fun starts_with :: "string \<Rightarrow> string \<Rightarrow> bool" where
  "starts_with s [] = True"
| "starts_with [] (y # ys) = False"
| "starts_with (x # xs) (y # ys) = (x = y \<and> starts_with xs ys)"

fun str_includes :: "string \<Rightarrow> string \<Rightarrow> bool" where
  "str_includes [] t = (t = [])"
| "str_includes (x # xs) t = (starts_with (x # xs) t \<or> str_includes xs t)"

fun matches_expected :: "string \<Rightarrow> expected_types \<Rightarrow> bool" where
  "matches_expected contentType (Many expectedContentTypes) =
     list_ex (\<lambda>expectedContentType. str_includes contentType (content_type_value expectedContentType))
       expectedContentTypes"
| "matches_expected contentType (One expectedContentType) =
     str_includes contentType (content_type_value expectedContentType)"

definition responseContentTypeHandler ::
  "IncomingMessage \<Rightarrow> expected_types \<Rightarrow> HttpClient \<Rightarrow> (thrown + IncomingMessage) \<times> HttpClient" where
  "responseContentTypeHandler res expectedContentTypes c =
     (case content_type res of
        Some contentType \<Rightarrow>
          if contentType \<noteq> [] then
            if matches_expected contentType expectedContentTypes then Inr res
            else Inl (HttpContentTypeError_obj
                        (Some (''Unexpected content type. Got '' @ contentType)) None)
          else Inl (HttpContentTypeError_obj (Some ''Unknown content type'') None)
      | None \<Rightarrow> Inl (HttpContentTypeError_obj (Some ''Unknown content type'') None),
      trace Call_responseContentTypeHandler c)"

definition responseBodyHandler ::
  "runtime \<Rightarrow> IncomingMessage \<Rightarrow> HttpClient \<Rightarrow> (thrown + string) \<times> HttpClient" where
  "responseBodyHandler rt res c =
     (case stream_error res of
        None \<Rightarrow> Inr (toString_utf8 rt (concat (chunks res)))
      | Some err \<Rightarrow> Inl (Error_obj err),
      trace Call_responseBodyHandler c)"

definition responseJSONHandler ::
  "runtime \<Rightarrow> IncomingMessage \<Rightarrow> HttpClient \<Rightarrow> (thrown + json) \<times> HttpClient" where
  "responseJSONHandler rt res c =
     (case responseBodyHandler rt res c of
        (Inl err, c') \<Rightarrow> (Inl err, c')
      | (Inr responseBody, c') \<Rightarrow>
          (case JSON_parse rt responseBody of
             Inr v \<Rightarrow> Inr v
           | Inl (SyntaxError_obj message) \<Rightarrow> Inl (JSONParseError_obj message responseBody)
           | Inl _ \<Rightarrow> Inl (JSONParseError_obj ''Unknown JSON parse error'' responseBody),
           trace (Call_JSON_parse responseBody) c'))"

definition responseTextHandler ::
  "runtime \<Rightarrow> IncomingMessage \<Rightarrow> HttpClient \<Rightarrow> (thrown + string) \<times> HttpClient" where
  "responseTextHandler rt res c = responseBodyHandler rt res c"

text \<open>
  \<^verbatim>\<open>requestHandler\<close> sends one POST; the network answers with a response or the
  request emits \<^verbatim>\<open>error\<close>. That answer is the argument \<open>answer\<close>.
\<close>

definition request_options :: "HttpClient \<Rightarrow> MethodT \<Rightarrow> string \<Rightarrow> request" where
  "request_options c method data =
     \<lparr>req_host = host (url c), req_port = port (url c),
      req_path = ''/'' @ method_name method,
      req_user_agent = UserAgent c, req_content_type = ContentType c,
      req_agent = agent c, req_method = ''POST'', req_data = data\<rparr>"

definition requestHandler ::
  "MethodT \<Rightarrow> string \<Rightarrow> string + IncomingMessage \<Rightarrow> HttpClient
     \<Rightarrow> (thrown + IncomingMessage) \<times> HttpClient" where
  "requestHandler method data answer c =
     (case answer of Inl err \<Rightarrow> Inl (Error_obj err) | Inr res \<Rightarrow> Inr res,
      trace (Https_request (request_options c method data)) c)"

definition postJSON ::
  "runtime \<Rightarrow> MethodT \<Rightarrow> string \<Rightarrow> string + IncomingMessage \<Rightarrow> HttpClient
     \<Rightarrow> (thrown + json) \<times> HttpClient" where
  "postJSON rt method data answer c =
     (case requestHandler method data answer c of
        (Inl err, c1) \<Rightarrow> (Inl err, c1)
      | (Inr res, c1) \<Rightarrow>
          (case responseStatusHandler res 200 c1 of
             (Inl err, c2) \<Rightarrow> (Inl err, c2)
           | (Inr _, c2) \<Rightarrow>
               (case responseContentTypeHandler res (Many [CT_json, CT_text]) c2 of
                  (Inl err, c3) \<Rightarrow> (Inl err, c3)
                | (Inr _, c3) \<Rightarrow> responseJSONHandler rt res c3)))"

definition postText ::
  "runtime \<Rightarrow> MethodT \<Rightarrow> string \<Rightarrow> string + IncomingMessage \<Rightarrow> HttpClient
     \<Rightarrow> (thrown + string) \<times> HttpClient" where
  "postText rt method data answer c =
     (case requestHandler method data answer c of
        (Inl err, c1) \<Rightarrow> (Inl err, c1)
      | (Inr res, c1) \<Rightarrow>
          (case responseStatusHandler res 200 c1 of
             (Inl err, c2) \<Rightarrow> (Inl err, c2)
           | (Inr _, c2) \<Rightarrow>
               (case responseContentTypeHandler res (One CT_text) c2 of
                  (Inl err, c3) \<Rightarrow> (Inl err, c3)
                | (Inr _, c3) \<Rightarrow> responseTextHandler rt res c3)))"

text \<open>The calls a step appended to the trace of \<open>c\<close>.\<close>

definition new_calls :: "HttpClient \<Rightarrow> HttpClient \<Rightarrow> call list" where
  "new_calls c c' = drop (length (calls c)) (calls c')"

subsection \<open>Runs of the client\<close>

text \<open>
  What can happen to a client object: a call of \<^verbatim>\<open>netConnectOrUse\<close> (the first
  thing \<^verbatim>\<open>post\<close> does), an event on a socket that \<^verbatim>\<open>netConnect\<close> created, a
  call of \<^verbatim>\<open>postJSON\<close> with the network's answer, and an assignment to the public
  field \<^verbatim>\<open>timeout\<close>.
\<close>

datatype action =
    Act_netConnectOrUse
  | Act_socket_event nat socket_event
  | Act_postJSON MethodT string "string + IncomingMessage"
  | Act_set_timeout "nat option"

fun step :: "runtime \<Rightarrow> action \<Rightarrow> HttpClient \<Rightarrow> HttpClient" where
  "step rt Act_netConnectOrUse c = snd (netConnectOrUse c)"
| "step rt (Act_socket_event i ev) c = (if i < length (connects c) then on_socket i ev c else c)"
| "step rt (Act_postJSON method data answer) c = snd (postJSON rt method data answer c)"
| "step rt (Act_set_timeout t) c = c\<lparr>timeout := t\<rparr>"

definition run :: "runtime \<Rightarrow> action list \<Rightarrow> HttpClient \<Rightarrow> HttpClient" where
  "run rt acts c = fold (step rt) acts c"

subsection \<open>The public entry point\<close>

text \<open>
  \<^verbatim>\<open>post\<close> awaits \<^verbatim>\<open>netConnectOrUse\<close> and then \<^verbatim>\<open>postJSON\<close>. For one call
  the network contributes the first event of the socket the call opens (unused when
  the socket is reused) and the answer to the request. \<open>None\<close> stands for an await
  that never resumes.
\<close>

record net_step =
  first_event :: socket_event
  answer :: "string + IncomingMessage"

definition post ::
  "runtime \<Rightarrow> MethodT \<Rightarrow> string \<Rightarrow> net_step \<Rightarrow> HttpClient
     \<Rightarrow> ((thrown + json) \<times> HttpClient) option" where
  "post rt method data ns c =
     (case netConnectOrUse c of
        (Promise_resolve, c1) \<Rightarrow> Some (postJSON rt method data (answer ns) c1)
      | (Connect_promise i, c1) \<Rightarrow>
          (let c2 = on_socket i (first_event ns) c1 in
           case connects c2 ! i of
             Resolved _ \<Rightarrow> Some (postJSON rt method data (answer ns) c2)
           | Rejected err \<Rightarrow> Some (Inl err, c2)
           | Pending \<Rightarrow> None))"

section \<open>JSON.stringify\<close>

text \<open>
  The serialisation of the runtime on the values of \<open>json\<close>: properties in insertion
  order, no white space, strings quoted with the JSON escapes, an integer below
  \<open>10^21\<close> in magnitude as its decimal digits.
\<close>

fun string_of_nat :: "nat \<Rightarrow> string" where
  "string_of_nat n =
     (if n < 10 then [''0123456789'' ! n]
      else string_of_nat (n div 10) @ [''0123456789'' ! (n mod 10)])"

declare string_of_nat.simps [simp del]

definition Number_toString :: "runtime \<Rightarrow> rat \<Rightarrow> string" where
  "Number_toString rt r =
     (if r = of_int \<lfloor>r\<rfloor> \<and> \<bar>r\<bar> < 10 ^ 21
      then (if r < 0 then ''-'' else []) @ string_of_nat (nat \<bar>\<lfloor>r\<rfloor>\<bar>)
      else fraction_toString rt r)"

fun escape_char :: "char \<Rightarrow> string" where
  "escape_char ch =
     (if ch = CHR 0x22 then [CHR 0x5C, CHR 0x22]
      else if ch = CHR 0x5C then [CHR 0x5C, CHR 0x5C]
      else if ch = CHR 0x08 then [CHR 0x5C, CHR ''b'']
      else if ch = CHR 0x0C then [CHR 0x5C, CHR ''f'']
      else if ch = CHR 0x0A then [CHR 0x5C, CHR ''n'']
      else if ch = CHR 0x0D then [CHR 0x5C, CHR ''r'']
      else if ch = CHR 0x09 then [CHR 0x5C, CHR ''t'']
      else if (of_char ch :: nat) < 32 then
        [CHR 0x5C, CHR ''u'', CHR ''0'', CHR ''0'',
         ''0123456789abcdef'' ! (of_char ch div 16), ''0123456789abcdef'' ! (of_char ch mod 16)]
      else [ch])"

definition quote :: "string \<Rightarrow> string" where
  "quote s = CHR 0x22 # concat (map escape_char s) @ [CHR 0x22]"

fun join_comma :: "string list \<Rightarrow> string" where
  "join_comma [] = []"
| "join_comma [x] = x"
| "join_comma (x # y # ys) = x @ '','' @ join_comma (y # ys)"

fun JSON_stringify :: "runtime \<Rightarrow> json \<Rightarrow> string" where
  "JSON_stringify rt JNull = ''null''"
| "JSON_stringify rt (JBool b) = (if b then ''true'' else ''false'')"
| "JSON_stringify rt (JNumber r) = Number_toString rt r"
| "JSON_stringify rt (JString s) = quote s"
| "JSON_stringify rt (JArray xs) = ''['' @ join_comma (map (JSON_stringify rt) xs) @ '']''"
| "JSON_stringify rt (JObject kvs) =
     ''{'' @ join_comma (map (\<lambda>(k, v). quote k @ '':'' @ JSON_stringify rt v) kvs) @ ''}''"

text \<open>Reading a property of a decoded object; \<open>None\<close> is \<^verbatim>\<open>undefined\<close>.\<close>

fun field :: "string \<Rightarrow> json \<Rightarrow> json option" where
  "field k (JObject kvs) = map_of kvs k"
| "field k _ = None"

section \<open>The captcha client\<close>

text \<open>
  Modelled from the spec: the client class behind \<^verbatim>\<open>CapMonsterCloudClientFactory.Create\<close>
  (its \<^verbatim>\<open>getBalance\<close> and \<^verbatim>\<open>Solve\<close>, the request bodies and the polling loop) and
  \<^verbatim>\<open>ClientOptions\<close> are not among the sources; only their integration test is. The
  options are the configuration bundle of the data model: API key, polling interval,
  first delay, maximum attempts (the service URL is the \<open>url\<close> of the HTTP client).
\<close>

record ClientOptions =
  clientKey :: string
  pollingInterval :: nat
  firstDelay :: nat
  maxAttempts :: nat

text \<open>
  Modelled from the spec: the request body is a JSON object that always includes the
  client key first; \<^verbatim>\<open>createTask\<close> adds the type-tagged \<^verbatim>\<open>task\<close> object and the
  fixed integration identifier \<^verbatim>\<open>softId\<close> 53, \<^verbatim>\<open>getTaskResult\<close> adds the task
  identifier (external interfaces, and the bodies the integration test expects).
\<close>

definition calcJSONData :: "runtime \<Rightarrow> ClientOptions \<Rightarrow> (string \<times> json) list \<Rightarrow> string" where
  "calcJSONData rt opts data =
     JSON_stringify rt (JObject ((''clientKey'', JString (clientKey opts)) # data))"

definition getBalance_body :: "runtime \<Rightarrow> ClientOptions \<Rightarrow> string" where
  "getBalance_body rt opts = calcJSONData rt opts []"

definition createTask_body :: "runtime \<Rightarrow> ClientOptions \<Rightarrow> json \<Rightarrow> string" where
  "createTask_body rt opts task =
     calcJSONData rt opts [(''task'', task), (''softId'', JNumber 53)]"

definition getTaskResult_body :: "runtime \<Rightarrow> ClientOptions \<Rightarrow> json \<Rightarrow> string" where
  "getTaskResult_body rt opts taskId = calcJSONData rt opts [(''taskId'', taskId)]"

text \<open>
  Modelled from the spec: the terminal states of the orchestrator. \<open>Ready\<close> resolves
  with the decoded response, which exposes \<^verbatim>\<open>solution\<close> (or \<^verbatim>\<open>balance\<close>);
  \<open>Failed\<close> rejects with the service's answer that carries a non-zero \<^verbatim>\<open>errorId\<close>;
  \<open>TimedOut\<close> rejects with the number of attempts made; \<open>Threw\<close> passes on an error
  of the transport or the pipeline unchanged.
\<close>

datatype outcome = Ready json | Failed json | TimedOut nat | Threw thrown

definition getBalance ::
  "runtime \<Rightarrow> ClientOptions \<Rightarrow> net_step \<Rightarrow> HttpClient \<Rightarrow> (outcome \<times> HttpClient) option" where
  "getBalance rt opts ns c =
     (case post rt GetBalance (getBalance_body rt opts) ns c of
        None \<Rightarrow> None
      | Some (Inl err, c') \<Rightarrow> Some (Threw err, c')
      | Some (Inr response, c') \<Rightarrow>
          if field ''errorId'' response \<noteq> Some (JNumber 0) then Some (Failed response, c')
          else Some (Ready response, c'))"

text \<open>
  Modelled from the spec: the Polling state. While the attempt counter is below the
  configured maximum: send \<^verbatim>\<open>getTaskResult\<close> with the stored task identifier; a
  non-zero error code fails, status \<^verbatim>\<open>ready\<close> resolves, anything else waits the
  inter-poll interval, increments the counter and retries. Once the counter has
  reached the maximum the run times out; the counter is compared before each request,
  so the loop stops as soon as the maximum is reached, a maximum of zero included.
  Request \<open>k\<close> of the run (the \<^verbatim>\<open>createTask\<close> is request 0) meets the
  network's \<open>net k\<close>.
\<close>

function polling ::
  "runtime \<Rightarrow> ClientOptions \<Rightarrow> (nat \<Rightarrow> net_step) \<Rightarrow> json \<Rightarrow> nat \<Rightarrow> HttpClient
     \<Rightarrow> (outcome \<times> HttpClient) option" where
  "polling rt opts net taskId counter c =
     (if maxAttempts opts \<le> counter then Some (TimedOut counter, c)
      else
        (case post rt GetTaskResult (getTaskResult_body rt opts taskId) (net (Suc counter)) c of
           None \<Rightarrow> None
         | Some (Inl err, c') \<Rightarrow> Some (Threw err, c')
         | Some (Inr response, c') \<Rightarrow>
             if field ''errorId'' response \<noteq> Some (JNumber 0) then Some (Failed response, c')
             else if field ''status'' response = Some (JString ''ready'')
               then Some (Ready response, c')
             else polling rt opts net taskId (Suc counter)
                    (trace (Wait (pollingInterval opts)) c')))"
  by pat_completeness auto
termination
  by (relation "measure (\<lambda>(rt, opts, net, taskId, counter, c). maxAttempts opts - counter)")
    auto

declare polling.simps [simp del]

text \<open>
  Modelled from the spec: the Submitting state and the hand-over to Polling. A
  \<^verbatim>\<open>createTask\<close> answer with a non-zero error code fails the run at once; on success
  the task identifier is taken from the answer, the initial delay is waited and polling
  starts with the counter at zero. The spec does not say what a success answer without
  a task identifier leads to; here it fails the run.
\<close>

definition Solve ::
  "runtime \<Rightarrow> ClientOptions \<Rightarrow> json \<Rightarrow> (nat \<Rightarrow> net_step) \<Rightarrow> HttpClient
     \<Rightarrow> (outcome \<times> HttpClient) option" where
  "Solve rt opts task net c =
     (case post rt CreateTask (createTask_body rt opts task) (net 0) c of
        None \<Rightarrow> None
      | Some (Inl err, c1) \<Rightarrow> Some (Threw err, c1)
      | Some (Inr created, c1) \<Rightarrow>
          if field ''errorId'' created \<noteq> Some (JNumber 0) then Some (Failed created, c1)
          else
            (case field ''taskId'' created of
               None \<Rightarrow> Some (Failed created, c1)
             | Some taskId \<Rightarrow>
                 polling rt opts net taskId 0 (trace (Wait (firstDelay opts)) c1)))"

text \<open>
  The requests a trace holds, as the mock server of the test catches them, and the
  number of \<^verbatim>\<open>getTaskResult\<close> requests among them.
\<close>

fun caughtRequests :: "call list \<Rightarrow> request list" where
  "caughtRequests [] = []"
| "caughtRequests (Https_request r # cs) = r # caughtRequests cs"
| "caughtRequests (_ # cs) = caughtRequests cs"

definition polls :: "call list \<Rightarrow> nat" where
  "polls cs = length (filter (\<lambda>r. req_path r = ''/getTaskResult'') (caughtRequests cs))"

text \<open>
  The network lets a request through: the answer is a response with status 200, an
  accepted content type and a body that ends and decodes to \<open>j\<close>.
\<close>

definition answers :: "runtime \<Rightarrow> string + IncomingMessage \<Rightarrow> json \<Rightarrow> bool" where
  "answers rt a j =
     (case a of
        Inl _ \<Rightarrow> False
      | Inr res \<Rightarrow>
          statusCode res = Some 200
          \<and> (case content_type res of
               None \<Rightarrow> False
             | Some ct \<Rightarrow> str_includes ct ''application/json'' \<or> str_includes ct ''text/plain'')
          \<and> stream_error res = None
          \<and> JSON_parse rt (toString_utf8 rt (concat (chunks res))) = Inr j)"

section \<open>Fixtures\<close>

text \<open>
  The inputs of the integration test: the mock server on localhost, its three canned
  response bodies and a not-ready one with what \<^verbatim>\<open>JSON.parse\<close> returns on them,
  the client key and the reCAPTCHA request, and two responses the validation chain
  refuses. The bodies are ASCII, so decoding them is the identity;
  no number the scenarios serialise has a fraction.
\<close>

definition test_url :: ClientURL where
  "test_url = \<lparr>hostname = ''localhost'', clientPort = 8080, host = ''localhost'', port = 8080\<rparr>"

definition balance_body :: string where
  \<open>balance_body = ''{"errorId":0,"balance":345.678}''\<close>

definition created_body :: string where
  \<open>created_body = ''{"errorId":0,"taskId":7654321}''\<close>

definition ready_body :: string where
  \<open>ready_body = ''{"errorId":0,"status":"ready","solution":{"gRecaptchaResponse":"answer"}}''\<close>

definition processing_body :: string where
  \<open>processing_body = ''{"errorId":0,"status":"processing"}''\<close>

definition test_parse :: "string \<Rightarrow> thrown + json" where
  "test_parse s =
     (if s = balance_body then
        Inr (JObject [(''errorId'', JNumber 0), (''balance'', JNumber 345.678)])
      else if s = created_body then
        Inr (JObject [(''errorId'', JNumber 0), (''taskId'', JNumber 7654321)])
      else if s = ready_body then
        Inr (JObject [(''errorId'', JNumber 0), (''status'', JString ''ready''),
                      (''solution'', JObject [(''gRecaptchaResponse'', JString ''answer'')])])
      else if s = processing_body then
        Inr (JObject [(''errorId'', JNumber 0), (''status'', JString ''processing'')])
      else Inl (SyntaxError_obj ''Unexpected token < in JSON at position 0''))"

definition test_runtime :: runtime where
  "test_runtime =
     \<lparr>JSON_parse = test_parse, toString_utf8 = (\<lambda>s. s), fraction_toString = (\<lambda>r. [])\<rparr>"

definition ok_response :: "string \<Rightarrow> IncomingMessage" where
  "ok_response body =
     \<lparr>statusCode = Some 200, statusMessage = Some ''OK'',
      content_type = Some ''application/json'', chunks = [body], stream_error = None\<rparr>"

definition response_500 :: IncomingMessage where
  "response_500 =
     \<lparr>statusCode = Some 500, statusMessage = Some ''Internal Server Error'',
      content_type = Some ''application/json'', chunks = [''{}''], stream_error = None\<rparr>"

definition response_html :: IncomingMessage where
  "response_html =
     \<lparr>statusCode = Some 200, statusMessage = Some ''OK'',
      content_type = Some ''text/html'', chunks = [''<html></html>''], stream_error = None\<rparr>"

definition test_options :: "nat \<Rightarrow> ClientOptions" where
  "test_options n =
     \<lparr>clientKey = ''<your capmonster.cloud API key>'', pollingInterval = 2000,
      firstDelay = 1000, maxAttempts = n\<rparr>"

text \<open>
  Modelled from the spec: the serialisation of \<^verbatim>\<open>RecaptchaV2ProxylessRequest\<close> (the
  request classes are not among the sources), as the body the test expects shows it.
\<close>

definition RecaptchaV2ProxylessRequest :: "string \<Rightarrow> string \<Rightarrow> json" where
  "RecaptchaV2ProxylessRequest websiteURL websiteKey =
     JObject [(''type'', JString ''NoCaptchaTaskProxyless''),
              (''websiteURL'', JString websiteURL), (''websiteKey'', JString websiteKey)]"

definition test_task :: json where
  "test_task =
     RecaptchaV2ProxylessRequest
       ''https://lessons.zennolab.com/captchas/recaptcha/v2_simple.php?level=high''
       ''6Lcg7CMUAAAAANphynKgn9YAgA4tQ2KI_iqRyTwd''"

definition served :: "string \<Rightarrow> net_step" where
  "served body = \<lparr>first_event = Ev_connect, answer = Inr (ok_response body)\<rparr>"

text \<open>The two scripts of the mock server: the test's, and one that is never ready.\<close>

definition test_net :: "nat \<Rightarrow> net_step" where
  "test_net k = (if k = 0 then served created_body else served ready_body)"

definition busy_net :: "nat \<Rightarrow> net_step" where
  "busy_net k = (if k = 0 then served created_body else served processing_body)"

section \<open>Invariants\<close>

text \<open>The agent, when there is one, is bound to the socket the client holds.\<close>

definition agent_bound :: "HttpClient \<Rightarrow> bool" where
  "agent_bound c =
     (case agent c of None \<Rightarrow> True | Some a \<Rightarrow> socket c = Some (agent_socket a))"

section \<open>Properties of the transport and the pipeline\<close>

subsection \<open>Auxiliary facts\<close>

lemma starts_with_iff: "starts_with s t \<longleftrightarrow> (\<exists>q. s = t @ q)"
  by (induction s t rule: starts_with.induct) auto

text \<open>\<open>str_includes\<close> is the substring relation.\<close>

lemma str_includes_iff: "str_includes s t \<longleftrightarrow> (\<exists>p q. s = p @ t @ q)"
proof (induction s)
  case Nil
  then show ?case by auto
next
  case (Cons x xs)
  show ?case
  proof
    assume "str_includes (x # xs) t"
    then consider "starts_with (x # xs) t" | "str_includes xs t" by auto
    then show "\<exists>p q. x # xs = p @ t @ q"
    proof cases
      case 1
      then obtain q where "x # xs = t @ q" by (auto simp: starts_with_iff)
      then have "x # xs = [] @ t @ q" by simp
      then show ?thesis by blast
    next
      case 2
      then obtain p q where "xs = p @ t @ q" using Cons.IH by auto
      then have "x # xs = (x # p) @ t @ q" by simp
      then show ?thesis by blast
    qed
  next
    assume "\<exists>p q. x # xs = p @ t @ q"
    then obtain p q where pq: "x # xs = p @ t @ q" by auto
    show "str_includes (x # xs) t"
    proof (cases p)
      case Nil
      then have "starts_with (x # xs) t" using pq by (auto simp: starts_with_iff)
      then show ?thesis by simp
    next
      case (Cons y ys)
      then have "xs = ys @ t @ q" using pq by simp
      then have "str_includes xs t" using Cons.IH by blast
      then show ?thesis by simp
    qed
  qed
qed

lemma str_includes_nonempty: "str_includes s (y # ys) \<Longrightarrow> s \<noteq> []"
  by (cases s) auto

lemma settle_socket [simp]: "socket (settle i v c) = socket c"
  by (simp add: settle_def)

lemma settle_agent [simp]: "agent (settle i v c) = agent c"
  by (simp add: settle_def)

lemma settle_calls [simp]: "calls (settle i v c) = calls c"
  by (simp add: settle_def)

lemma settle_length [simp]: "length (connects (settle i v c)) = length (connects c)"
  by (simp add: settle_def)

lemma socket_trace [simp]: "socket (trace e c) = socket c"
  by (simp add: trace_def)

lemma agent_trace [simp]: "agent (trace e c) = agent c"
  by (simp add: trace_def)

lemma connects_trace [simp]: "connects (trace e c) = connects c"
  by (simp add: trace_def)

lemma calls_trace [simp]: "calls (trace e c) = calls c @ [e]"
  by (simp add: trace_def)

lemma postJSON_socket [simp]: "socket (snd (postJSON rt m d a c)) = socket c"
  by (simp add: postJSON_def requestHandler_def responseStatusHandler_def
      responseContentTypeHandler_def responseJSONHandler_def responseBodyHandler_def
      split: sum.splits option.splits prod.splits thrown.splits)

lemma postJSON_agent [simp]: "agent (snd (postJSON rt m d a c)) = agent c"
  by (simp add: postJSON_def requestHandler_def responseStatusHandler_def
      responseContentTypeHandler_def responseJSONHandler_def responseBodyHandler_def
      split: sum.splits option.splits prod.splits thrown.splits)

lemma postJSON_connects [simp]: "connects (snd (postJSON rt m d a c)) = connects c"
  by (simp add: postJSON_def requestHandler_def responseStatusHandler_def
      responseContentTypeHandler_def responseJSONHandler_def responseBodyHandler_def
      split: sum.splits option.splits prod.splits thrown.splits)

lemma step_agent_bound: "agent_bound c \<Longrightarrow> agent_bound (step rt a c)"
proof (cases a)
  case Act_netConnectOrUse
  assume "agent_bound c"
  then show ?thesis using Act_netConnectOrUse
    by (auto simp: agent_bound_def netConnectOrUse_def netConnect_def Let_def
        split: option.splits)
next
  case (Act_socket_event i ev)
  assume "agent_bound c"
  then show ?thesis using Act_socket_event
    by (cases ev) (auto simp: agent_bound_def split: option.splits)
next
  case (Act_postJSON m d ans)
  assume "agent_bound c"
  then show ?thesis using Act_postJSON
    by (auto simp: agent_bound_def split: option.splits)
next
  case (Act_set_timeout t)
  assume "agent_bound c"
  then show ?thesis using Act_set_timeout
    by (auto simp: agent_bound_def split: option.splits)
qed

lemma run_agent_bound: "agent_bound c \<Longrightarrow> agent_bound (run rt acts c)"
  unfolding run_def
  by (induction acts arbitrary: c) (auto intro: step_agent_bound)

lemma step_creates_agent:
  "agent (step rt a c) \<noteq> agent c \<Longrightarrow> agent (step rt a c) \<noteq> None
     \<Longrightarrow> (\<exists>i. a = Act_socket_event i Ev_connect) \<and> socket c \<noteq> None"
proof (cases a)
  case (Act_socket_event i ev)
  assume "agent (step rt a c) \<noteq> agent c" "agent (step rt a c) \<noteq> None"
  then show ?thesis using Act_socket_event
    by (cases ev) (auto split: option.splits if_splits)
qed (auto simp: netConnectOrUse_def netConnect_def Let_def split: option.splits)

lemma step_failure_clears:
  "ev \<noteq> Ev_connect \<Longrightarrow> i < length (connects c)
     \<Longrightarrow> socket (step rt (Act_socket_event i ev) c) = None
       \<and> agent (step rt (Act_socket_event i ev) c) = None"
  by (cases ev) auto

subsection \<open>The validation chain\<close>

text \<open>
  C2. For every response whose status code is not 200 (a missing status code
  included), \<^verbatim>\<open>postJSON\<close> fails with an \<open>HttpStatusError\<close> that carries the
  response's status message and status code. Of the pipeline only the request and
  the status check ran: the content-type check, the body read and \<^verbatim>\<open>JSON.parse\<close>
  are not in the trace.
\<close>

theorem postJSON_status_error:
  assumes "statusCode res \<noteq> Some 200"
  shows "fst (postJSON rt method data (Inr res) c)
           = Inl (HttpStatusError_obj (statusMessage res) (statusCode res))
       \<and> new_calls c (snd (postJSON rt method data (Inr res) c))
           = [Https_request (request_options c method data), Call_responseStatusHandler]
       \<and> Call_responseContentTypeHandler
           \<notin> set (new_calls c (snd (postJSON rt method data (Inr res) c)))
       \<and> Call_responseBodyHandler
           \<notin> set (new_calls c (snd (postJSON rt method data (Inr res) c)))
       \<and> (\<forall>b. Call_JSON_parse b
           \<notin> set (new_calls c (snd (postJSON rt method data (Inr res) c))))"
  using assms
  by (simp add: postJSON_def requestHandler_def responseStatusHandler_def new_calls_def
      trace_def)

theorem postJSON_status_error_witness:
  "statusCode response_500 \<noteq> Some 200
   \<and> fst (postJSON test_runtime CreateTask ''{}'' (Inr response_500) (new_HttpClient test_url))
       = Inl (HttpStatusError_obj (Some ''Internal Server Error'') (Some 500))
   \<and> new_calls (new_HttpClient test_url)
        (snd (postJSON test_runtime CreateTask ''{}'' (Inr response_500)
               (new_HttpClient test_url)))
       = [Https_request (request_options (new_HttpClient test_url) CreateTask ''{}''),
          Call_responseStatusHandler]"
  using postJSON_status_error
    [of response_500 test_runtime CreateTask "''{}''" "new_HttpClient test_url"]
  by (simp add: response_500_def)

text \<open>
  C3. For every response with status 200 whose \<^verbatim>\<open>content-type\<close> header is absent,
  or contains neither \<^verbatim>\<open>application/json\<close> nor \<^verbatim>\<open>text/plain\<close>, \<^verbatim>\<open>postJSON\<close>
  fails with an \<open>HttpContentTypeError\<close>; for every such response whose header is
  absent or does not contain \<^verbatim>\<open>text/plain\<close>, \<^verbatim>\<open>postText\<close> fails with an
  \<open>HttpContentTypeError\<close>. In both cases the trace ends with the content-type check:
  the body is not read and nothing is parsed.
\<close>

theorem content_type_error:
  assumes "statusCode res = Some 200"
  shows "(content_type res = None
            \<or> (\<exists>ct. content_type res = Some ct \<and> \<not> str_includes ct ''application/json''
                    \<and> \<not> str_includes ct ''text/plain'')
          \<longrightarrow> (\<exists>msg. fst (postJSON rt method data (Inr res) c)
                        = Inl (HttpContentTypeError_obj msg None))
              \<and> new_calls c (snd (postJSON rt method data (Inr res) c))
                  = [Https_request (request_options c method data),
                     Call_responseStatusHandler, Call_responseContentTypeHandler])
       \<and> (content_type res = None
            \<or> (\<exists>ct. content_type res = Some ct \<and> \<not> str_includes ct ''text/plain'')
          \<longrightarrow> (\<exists>msg. fst (postText rt method data (Inr res) c)
                        = Inl (HttpContentTypeError_obj msg None))
              \<and> new_calls c (snd (postText rt method data (Inr res) c))
                  = [Https_request (request_options c method data),
                     Call_responseStatusHandler, Call_responseContentTypeHandler])"
  using assms
  by (auto simp: postJSON_def postText_def requestHandler_def responseStatusHandler_def
      responseContentTypeHandler_def new_calls_def trace_def)

theorem content_type_error_witness:
  "statusCode response_html = Some 200
   \<and> content_type response_html = Some ''text/html''
   \<and> \<not> str_includes ''text/html'' ''application/json''
   \<and> \<not> str_includes ''text/html'' ''text/plain''
   \<and> (\<exists>msg. fst (postJSON test_runtime GetBalance ''{}'' (Inr response_html)
                   (new_HttpClient test_url))
               = Inl (HttpContentTypeError_obj msg None))
   \<and> (\<exists>msg. fst (postText test_runtime GetBalance ''{}'' (Inr response_html)
                   (new_HttpClient test_url))
               = Inl (HttpContentTypeError_obj msg None))
   \<and> new_calls (new_HttpClient test_url)
        (snd (postJSON test_runtime GetBalance ''{}'' (Inr response_html)
               (new_HttpClient test_url)))
       = [Https_request (request_options (new_HttpClient test_url) GetBalance ''{}''),
          Call_responseStatusHandler, Call_responseContentTypeHandler]"
  using content_type_error
    [of response_html test_runtime GetBalance "''{}''" "new_HttpClient test_url"]
  by (simp add: response_html_def)

text \<open>
  C4. For every response that passes the status check and the content-type check of
  \<^verbatim>\<open>postJSON\<close> and whose body was read to its end, if \<^verbatim>\<open>JSON.parse\<close> throws a
  \<open>SyntaxError\<close> on the decoded body, \<^verbatim>\<open>postJSON\<close> fails with a \<open>JSONParseError\<close>
  carrying the parser's message and the decoded body. That error is an instance of none
  of the four HTTP error classes, and none of those classes descends from
  \<open>JSONParseError\<close>.
\<close>

theorem json_parse_error:
  assumes "statusCode res = Some 200"
    and "content_type res = Some ct"
    and "str_includes ct ''application/json'' \<or> str_includes ct ''text/plain''"
    and "stream_error res = None"
    and "JSON_parse rt (toString_utf8 rt (concat (chunks res))) = Inl (SyntaxError_obj message)"
  shows "fst (postJSON rt method data (Inr res) c)
           = Inl (JSONParseError_obj message (toString_utf8 rt (concat (chunks res))))
       \<and> \<not> instanceof (JSONParseError_obj message (toString_utf8 rt (concat (chunks res))))
             HttpClientError
       \<and> \<not> instanceof (JSONParseError_obj message (toString_utf8 rt (concat (chunks res))))
             HttpSocketError
       \<and> \<not> instanceof (JSONParseError_obj message (toString_utf8 rt (concat (chunks res))))
             HttpStatusError
       \<and> \<not> instanceof (JSONParseError_obj message (toString_utf8 rt (concat (chunks res))))
             HttpContentTypeError
       \<and> \<not> is_subclass HttpClientError JSONParseError
       \<and> \<not> is_subclass HttpSocketError JSONParseError
       \<and> \<not> is_subclass HttpStatusError JSONParseError
       \<and> \<not> is_subclass HttpContentTypeError JSONParseError"
proof -
  have ne: "ct \<noteq> []"
    using assms(3) by (auto dest: str_includes_nonempty)
  have "fst (postJSON rt method data (Inr res) c)
          = Inl (JSONParseError_obj message (toString_utf8 rt (concat (chunks res))))"
    using assms ne
    by (auto simp: postJSON_def requestHandler_def responseStatusHandler_def
        responseContentTypeHandler_def responseJSONHandler_def responseBodyHandler_def)
  then show ?thesis
    by (simp add: instanceof_def is_subclass.simps)
qed

theorem json_parse_error_witness:
  "statusCode (ok_response ''<html>'') = Some 200
   \<and> content_type (ok_response ''<html>'') = Some ''application/json''
   \<and> str_includes ''application/json'' ''application/json''
   \<and> stream_error (ok_response ''<html>'') = None
   \<and> JSON_parse test_runtime (toString_utf8 test_runtime (concat (chunks (ok_response ''<html>''))))
       = Inl (SyntaxError_obj ''Unexpected token < in JSON at position 0'')
   \<and> fst (postJSON test_runtime GetTaskResult ''{}'' (Inr (ok_response ''<html>''))
            (new_HttpClient test_url))
       = Inl (JSONParseError_obj ''Unexpected token < in JSON at position 0'' ''<html>'')"
proof -
  have h: "JSON_parse test_runtime
             (toString_utf8 test_runtime (concat (chunks (ok_response ''<html>''))))
           = Inl (SyntaxError_obj ''Unexpected token < in JSON at position 0'')"
    by (simp add: test_runtime_def test_parse_def ok_response_def balance_body_def
        created_body_def ready_body_def processing_body_def)
  have i: "str_includes ''application/json'' ''application/json''"
    by simp
  show ?thesis
    using h i json_parse_error
      [of "ok_response ''<html>''" "''application/json''" test_runtime
          "''Unexpected token < in JSON at position 0''" GetTaskResult "''{}''"
          "new_HttpClient test_url"]
    by (simp add: ok_response_def test_runtime_def)
qed

subsection \<open>The socket manager\<close>

text \<open>
  C5, as the claim states it, fails: the listener of \<^verbatim>\<open>error\<close> rejects the pending
  connect with the event's own argument, an \<open>Error\<close> of Node, which is not an
  \<open>HttpSocketError\<close>. Here the first socket of a fresh client emits \<^verbatim>\<open>error\<close>:
  socket and agent are cleared, and the connect is rejected with the raw error.
\<close>

theorem socket_error_kind_counterexample:
  "socket (on_socket 0 (Ev_error ''connect ECONNREFUSED'')
             (snd (netConnect (new_HttpClient test_url)))) = None
   \<and> agent (on_socket 0 (Ev_error ''connect ECONNREFUSED'')
             (snd (netConnect (new_HttpClient test_url)))) = None
   \<and> connects (on_socket 0 (Ev_error ''connect ECONNREFUSED'')
                (snd (netConnect (new_HttpClient test_url)))) ! 0
       = Rejected (Error_obj ''connect ECONNREFUSED'')
   \<and> \<not> instanceof (Error_obj ''connect ECONNREFUSED'') HttpSocketError"
  by (simp add: netConnect_def new_HttpClient_def trace_def settle_def Let_def
      instanceof_def is_subclass.simps)

text \<open>
  C5, amended. For every \<^verbatim>\<open>error\<close> or \<^verbatim>\<open>close\<close> event of a socket, the listener
  clears both the stored socket and the stored agent. If the connect of that socket is
  still pending it is rejected with the event's own argument: the raw error of an
  \<^verbatim>\<open>error\<close> event, the \<^verbatim>\<open>hadError\<close> flag of a \<^verbatim>\<open>close\<close> event; neither is an
  instance of \<open>HttpSocketError\<close>. If that connect has settled already, no promise
  changes. The next \<^verbatim>\<open>netConnectOrUse\<close> is not rejected: it opens a new socket.
\<close>

theorem socket_failure_clears_and_rejects:
  assumes "ev = Ev_error err \<or> ev = Ev_close hadError"
  shows "socket (on_socket i ev c) = None \<and> agent (on_socket i ev c) = None
       \<and> (i < length (connects c) \<and> connects c ! i = Pending \<longrightarrow>
            connects (on_socket i ev c) ! i
              = Rejected (case ev of Ev_error e \<Rightarrow> Error_obj e
                          | Ev_close b \<Rightarrow> Bool_val b
                          | Ev_connect \<Rightarrow> Undefined_val))
       \<and> \<not> instanceof (case ev of Ev_error e \<Rightarrow> Error_obj e
                         | Ev_close b \<Rightarrow> Bool_val b
                         | Ev_connect \<Rightarrow> Undefined_val) HttpSocketError
       \<and> (\<not> (i < length (connects c) \<and> connects c ! i = Pending) \<longrightarrow>
            connects (on_socket i ev c) = connects c)
       \<and> fst (netConnectOrUse (on_socket i ev c)) = Connect_promise (length (connects c))"
  using assms
  by (auto simp: settle_def netConnectOrUse_def netConnect_def Let_def instanceof_def
      is_subclass.simps)

theorem socket_failure_clears_and_rejects_witness:
  "(Ev_close True = Ev_error [] \<or> Ev_close True = Ev_close True)
   \<and> (0::nat) < length (connects (snd (netConnect (new_HttpClient test_url))))
   \<and> connects (snd (netConnect (new_HttpClient test_url))) ! 0 = Pending
   \<and> socket (snd (netConnect (new_HttpClient test_url))) = Some 0
   \<and> socket (on_socket 0 (Ev_close True) (snd (netConnect (new_HttpClient test_url)))) = None
   \<and> agent (on_socket 0 (Ev_close True) (snd (netConnect (new_HttpClient test_url)))) = None
   \<and> connects (on_socket 0 (Ev_close True) (snd (netConnect (new_HttpClient test_url)))) ! 0
       = Rejected (Bool_val True)
   \<and> fst (netConnectOrUse
            (on_socket 0 (Ev_close True) (snd (netConnect (new_HttpClient test_url)))))
       = Connect_promise 1"
  using socket_failure_clears_and_rejects
    [of "Ev_close True" "[]" True 0 "snd (netConnect (new_HttpClient test_url))"]
  by (simp add: netConnect_def new_HttpClient_def trace_def Let_def)

text \<open>
  C6. In every state that holds a socket, \<^verbatim>\<open>netConnectOrUse\<close> returns
  \<^verbatim>\<open>Promise.resolve()\<close> and leaves the whole client as it was: the same socket, no
  new connect promise, nothing added to the trace. Hence in any state a second call
  right after a first one returns at once with the handle the first call left.
\<close>

theorem netConnectOrUse_idempotent:
  "(socket c = Some s \<longrightarrow> netConnectOrUse c = (Promise_resolve, c))
   \<and> netConnectOrUse (snd (netConnectOrUse c)) = (Promise_resolve, snd (netConnectOrUse c))"
  by (auto simp: netConnectOrUse_def netConnect_def Let_def trace_def split: option.splits)

theorem netConnectOrUse_idempotent_witness:
  "socket (snd (netConnectOrUse (new_HttpClient test_url))) = Some 0
   \<and> netConnectOrUse (snd (netConnectOrUse (new_HttpClient test_url)))
       = (Promise_resolve, snd (netConnectOrUse (new_HttpClient test_url)))
   \<and> calls (snd (netConnectOrUse (snd (netConnectOrUse (new_HttpClient test_url)))))
       = [Net_connect 8080 ''localhost'']"
  using netConnectOrUse_idempotent
    [of "snd (netConnectOrUse (new_HttpClient test_url))" 0]
  by (simp add: netConnectOrUse_def netConnect_def new_HttpClient_def trace_def Let_def
      test_url_def)

text \<open>
  C10. After every run of a new client (calls of \<^verbatim>\<open>netConnectOrUse\<close> and
  \<^verbatim>\<open>postJSON\<close>, socket events in any order, assignments to \<^verbatim>\<open>timeout\<close>), an agent
  is stored only while a socket is stored, and that socket is the one the agent was
  built on. A step stores a new agent only if it is a \<^verbatim>\<open>connect\<close> event met with a
  socket present, and every \<^verbatim>\<open>error\<close> or \<^verbatim>\<open>close\<close> event of an existing socket
  clears socket and agent together.
\<close>

theorem agent_only_with_socket:
  "agent_bound (run rt acts (new_HttpClient u))
   \<and> (agent (run rt acts (new_HttpClient u)) \<noteq> None
        \<longrightarrow> socket (run rt acts (new_HttpClient u)) \<noteq> None)
   \<and> (agent (step rt act c) \<noteq> agent c \<and> agent (step rt act c) \<noteq> None
        \<longrightarrow> (\<exists>i. act = Act_socket_event i Ev_connect) \<and> socket c \<noteq> None)
   \<and> (ev \<noteq> Ev_connect \<and> i < length (connects c)
        \<longrightarrow> socket (step rt (Act_socket_event i ev) c) = None
          \<and> agent (step rt (Act_socket_event i ev) c) = None)"
proof -
  have "agent_bound (new_HttpClient u)"
    by (simp add: agent_bound_def new_HttpClient_def)
  then have inv: "agent_bound (run rt acts (new_HttpClient u))"
    by (rule run_agent_bound)
  then have "agent (run rt acts (new_HttpClient u)) \<noteq> None
      \<longrightarrow> socket (run rt acts (new_HttpClient u)) \<noteq> None"
    by (auto simp: agent_bound_def split: option.splits)
  with inv show ?thesis
    using step_creates_agent [of rt act c] step_failure_clears [of ev i c rt]
    by blast
qed

theorem agent_only_with_socket_witness:
  "agent (run test_runtime [Act_netConnectOrUse, Act_socket_event 0 Ev_connect]
            (new_HttpClient test_url))
     = Some \<lparr>agent_socket = 0, keepAlive = True, agent_timeout = None\<rparr>
   \<and> socket (run test_runtime [Act_netConnectOrUse, Act_socket_event 0 Ev_connect]
               (new_HttpClient test_url)) = Some 0
   \<and> agent (step test_runtime (Act_socket_event 0 Ev_connect)
              (step test_runtime Act_netConnectOrUse (new_HttpClient test_url)))
       \<noteq> agent (step test_runtime Act_netConnectOrUse (new_HttpClient test_url))
   \<and> socket (step test_runtime Act_netConnectOrUse (new_HttpClient test_url)) \<noteq> None
   \<and> Ev_close False \<noteq> Ev_connect
   \<and> (0::nat) < length (connects (step test_runtime Act_netConnectOrUse (new_HttpClient test_url)))
   \<and> socket (step test_runtime (Act_socket_event 0 (Ev_close False))
               (step test_runtime Act_netConnectOrUse (new_HttpClient test_url))) = None"
  using agent_only_with_socket
    [of test_runtime "[Act_netConnectOrUse, Act_socket_event 0 Ev_connect]" test_url
        "Act_socket_event 0 Ev_connect"
        "step test_runtime Act_netConnectOrUse (new_HttpClient test_url)"
        "Ev_close False" 0]
  by (simp add: run_def netConnectOrUse_def netConnect_def new_HttpClient_def trace_def
      settle_def Let_def)

subsection \<open>Auxiliary facts about the client\<close>

lemma caughtRequests_append:
  "caughtRequests (xs @ ys) = caughtRequests xs @ caughtRequests ys"
  by (induction xs rule: caughtRequests.induct) auto

lemma polls_append: "polls (xs @ ys) = polls xs + polls ys"
  by (simp add: polls_def caughtRequests_append)

lemma polls_Nil [simp]: "polls [] = 0"
  by (simp add: polls_def)

text \<open>\<^verbatim>\<open>postJSON\<close> sends exactly one request, first, and nothing else reaches the server.\<close>

lemma postJSON_calls:
  "\<exists>ys. calls (snd (postJSON rt m d a c)) = calls c @ Https_request (request_options c m d) # ys
        \<and> caughtRequests ys = []"
  by (auto simp: postJSON_def requestHandler_def responseStatusHandler_def
      responseContentTypeHandler_def responseJSONHandler_def responseBodyHandler_def
      split: sum.splits option.splits prod.splits thrown.splits)

lemma postJSON_answers:
  assumes "answers rt a j"
  shows "fst (postJSON rt m d a c) = Inr j"
proof -
  obtain res where a: "a = Inr res"
    using assms by (cases a) (auto simp: answers_def)
  obtain ct where ct: "content_type res = Some ct"
    using assms a by (cases "content_type res") (auto simp: answers_def)
  have inc: "str_includes ct ''application/json'' \<or> str_includes ct ''text/plain''"
    using assms a ct by (simp add: answers_def)
  then have ne: "ct \<noteq> []"
    by (auto dest: str_includes_nonempty)
  have st: "statusCode res = Some 200" and se: "stream_error res = None"
    and pj: "JSON_parse rt (toString_utf8 rt (concat (chunks res))) = Inr j"
    using assms a by (simp_all add: answers_def)
  show ?thesis
    using a ct inc ne st se pj
    by (auto simp: postJSON_def requestHandler_def responseStatusHandler_def
        responseContentTypeHandler_def responseJSONHandler_def responseBodyHandler_def)
qed

text \<open>The first event of a socket settles the connect that opened it.\<close>

lemma first_event_settles:
  "connects (on_socket (length (connects c)) ev (snd (netConnect c))) ! length (connects c)
     \<noteq> Pending"
  by (cases ev) (auto simp: netConnect_def Let_def settle_def nth_append)

lemma post_total: "post rt m d ns c \<noteq> None"
proof (cases "socket c")
  case None
  then show ?thesis
    using first_event_settles [of c "first_event ns"]
    by (auto simp: post_def netConnectOrUse_def netConnect_def Let_def split: promise.splits)
next
  case (Some s)
  then show ?thesis
    by (simp add: post_def netConnectOrUse_def)
qed

lemma post_live:
  "socket c \<noteq> None \<Longrightarrow> post rt m d ns c = Some (postJSON rt m d (answer ns) c)"
  by (auto simp: post_def netConnectOrUse_def)

text \<open>
  Whatever the network does, a \<^verbatim>\<open>post\<close> extends the trace, and what it sends is
  nothing or the one request for its method with its data.
\<close>

lemma post_calls:
  assumes "post rt m d ns c = Some (r, c')"
  shows "\<exists>xs. calls c' = calls c @ xs
           \<and> (caughtRequests xs = []
              \<or> (\<exists>q. caughtRequests xs = [q] \<and> req_path q = ''/'' @ method_name m
                      \<and> req_data q = d))"
proof (cases "socket c")
  case (Some s)
  then have "postJSON rt m d (answer ns) c = (r, c')"
    using assms by (simp add: post_live)
  then have c': "c' = snd (postJSON rt m d (answer ns) c)"
    by simp
  obtain ys where "calls c' = calls c @ Https_request (request_options c m d) # ys"
    and "caughtRequests ys = []"
    using postJSON_calls [of rt m d "answer ns" c] c' by auto
  then show ?thesis
    by (auto simp: request_options_def)
next
  case None
  define c1 where "c1 = snd (netConnect c)"
  define c2 where "c2 = on_socket (length (connects c)) (first_event ns) c1"
  have calls1: "calls c1 = calls c @ [Net_connect (clientPort (url c)) (hostname (url c))]"
    by (simp add: c1_def netConnect_def Let_def)
  have calls2: "calls c2 = calls c1"
    by (cases "first_event ns") (auto simp: c2_def split: option.splits)
  have unfold: "post rt m d ns c =
      (case connects c2 ! length (connects c) of
         Resolved _ \<Rightarrow> Some (postJSON rt m d (answer ns) c2)
       | Rejected err \<Rightarrow> Some (Inl err, c2)
       | Pending \<Rightarrow> None)"
    using None
    by (auto simp: post_def netConnectOrUse_def netConnect_def Let_def c1_def c2_def
        split: promise.splits)
  show ?thesis
  proof (cases "connects c2 ! length (connects c)")
    case Pending
    then show ?thesis using assms unfold by simp
  next
    case (Rejected err)
    then have "c' = c2" using assms unfold by simp
    then show ?thesis using calls1 calls2 by simp
  next
    case (Resolved u)
    then have "postJSON rt m d (answer ns) c2 = (r, c')"
      using assms unfold by simp
    then have c': "c' = snd (postJSON rt m d (answer ns) c2)"
      by simp
    obtain ys where "calls c' = calls c2 @ Https_request (request_options c2 m d) # ys"
      and "caughtRequests ys = []"
      using postJSON_calls [of rt m d "answer ns" c2] c' by auto
    then show ?thesis
      using calls1 calls2 by (auto simp: request_options_def)
  qed
qed

text \<open>A \<^verbatim>\<open>post\<close> that returned a decoded answer leaves a socket stored.\<close>

lemma post_Inr_socket:
  assumes "post rt m d ns c = Some (Inr j, c')"
  shows "socket c' \<noteq> None"
proof (cases "socket c")
  case (Some s)
  then have "postJSON rt m d (answer ns) c = (Inr j, c')"
    using assms by (simp add: post_live)
  then have "c' = snd (postJSON rt m d (answer ns) c)"
    by simp
  then show ?thesis using Some by simp
next
  case None
  define c2 where "c2 = on_socket (length (connects c)) (first_event ns) (snd (netConnect c))"
  have unfold: "post rt m d ns c =
      (case connects c2 ! length (connects c) of
         Resolved _ \<Rightarrow> Some (postJSON rt m d (answer ns) c2)
       | Rejected err \<Rightarrow> Some (Inl err, c2)
       | Pending \<Rightarrow> None)"
    using None
    by (auto simp: post_def netConnectOrUse_def netConnect_def Let_def c2_def
        split: promise.splits)
  show ?thesis
  proof (cases "connects c2 ! length (connects c)")
    case Pending
    then show ?thesis using assms unfold by simp
  next
    case (Rejected err)
    then show ?thesis using assms unfold by simp
  next
    case (Resolved u)
    then have "postJSON rt m d (answer ns) c2 = (Inr j, c')"
      using assms unfold by simp
    then have c': "c' = snd (postJSON rt m d (answer ns) c2)"
      by simp
    have "socket c2 \<noteq> None"
      using Resolved
      by (cases "first_event ns")
        (auto simp: c2_def netConnect_def Let_def settle_def nth_append)
    then show ?thesis using c' by simp
  qed
qed

text \<open>With the socket connecting (or stored already) and the network answering, \<^verbatim>\<open>post\<close> returns the decoded answer.\<close>

lemma post_answers:
  assumes "first_event ns = Ev_connect \<or> socket c \<noteq> None"
    and "answers rt (answer ns) j"
  shows "\<exists>c'. post rt m d ns c = Some (Inr j, c')"
proof (cases "socket c")
  case (Some s)
  then have "post rt m d ns c = Some (postJSON rt m d (answer ns) c)"
    by (simp add: post_live)
  then show ?thesis
    using postJSON_answers [OF assms(2), of m d c]
    by (cases "postJSON rt m d (answer ns) c") auto
next
  case None
  then have ev: "first_event ns = Ev_connect"
    using assms(1) by simp
  define c2 where "c2 = on_socket (length (connects c)) Ev_connect (snd (netConnect c))"
  have "connects c2 ! length (connects c) = Resolved ()"
    by (simp add: c2_def netConnect_def Let_def settle_def nth_append)
  then have "post rt m d ns c = Some (postJSON rt m d (answer ns) c2)"
    using None ev
    by (simp add: post_def netConnectOrUse_def netConnect_def Let_def c2_def)
  then show ?thesis
    using postJSON_answers [OF assms(2), of m d c2]
    by (cases "postJSON rt m d (answer ns) c2") auto
qed

lemma post_live_calls:
  assumes "socket c \<noteq> None" and "post rt m d ns c = Some (r, c')"
  shows "\<exists>ys. calls c' = calls c @ Https_request (request_options c m d) # ys
           \<and> caughtRequests ys = [] \<and> socket c' = socket c"
proof -
  have "postJSON rt m d (answer ns) c = (r, c')"
    using assms by (simp add: post_live)
  then have "c' = snd (postJSON rt m d (answer ns) c)"
    by simp
  then show ?thesis
    using postJSON_calls [of rt m d "answer ns" c] by auto
qed

lemma polls_one_request:
  "caughtRequests ys = [] \<Longrightarrow>
     polls (Https_request (request_options c GetTaskResult d) # ys) = 1"
  by (simp add: polls_def request_options_def)

text \<open>
  Every run of the polling loop returns; it sends at most as many requests as attempts
  remain, each a \<^verbatim>\<open>getTaskResult\<close> with the body built from the task identifier.
\<close>

lemma polling_run:
  "\<exists>out c' xs. polling rt opts net tid k c = Some (out, c')
     \<and> calls c' = calls c @ xs
     \<and> polls xs \<le> maxAttempts opts - k
     \<and> length (caughtRequests xs) \<le> maxAttempts opts - k
     \<and> (\<forall>q \<in> set (caughtRequests xs).
           req_path q = ''/getTaskResult'' \<and> req_data q = getTaskResult_body rt opts tid)"
proof (induction n \<equiv> "maxAttempts opts - k" arbitrary: k c)
  case 0
  then have "polling rt opts net tid k c = Some (TimedOut k, c)"
    by (simp add: polling.simps)
  then show ?case by simp
next
  case (Suc n)
  then have lt: "\<not> maxAttempts opts \<le> k" and n: "n = maxAttempts opts - Suc k"
    by auto
  obtain r c1 where p: "post rt GetTaskResult (getTaskResult_body rt opts tid) (net (Suc k)) c
      = Some (r, c1)"
    using post_total [of rt GetTaskResult "getTaskResult_body rt opts tid" "net (Suc k)" c]
    by (cases "post rt GetTaskResult (getTaskResult_body rt opts tid) (net (Suc k)) c") auto
  obtain xs1 where xs1: "calls c1 = calls c @ xs1"
    and one: "caughtRequests xs1 = []
        \<or> (\<exists>q. caughtRequests xs1 = [q] \<and> req_path q = ''/'' @ method_name GetTaskResult
                \<and> req_data q = getTaskResult_body rt opts tid)"
    using post_calls [OF p] by auto
  have len1: "length (caughtRequests xs1) \<le> 1" and polls1: "polls xs1 \<le> 1"
    and all1: "\<forall>q \<in> set (caughtRequests xs1).
       req_path q = ''/getTaskResult'' \<and> req_data q = getTaskResult_body rt opts tid"
    using one by (auto simp: polls_def)
  have room: "1 \<le> maxAttempts opts - k"
    using lt by simp
  have stop: "polling rt opts net tid k c = Some (out, c1) \<Longrightarrow> ?case" for out
    using xs1 len1 polls1 all1 room by (intro exI [of _ out] exI [of _ c1] exI [of _ xs1]) auto
  show ?case
  proof (cases r)
    case (Inl err)
    then have "polling rt opts net tid k c = Some (Threw err, c1)"
      using lt p by (simp add: polling.simps)
    then show ?thesis by (rule stop)
  next
    case (Inr response)
    show ?thesis
    proof (cases "field ''errorId'' response \<noteq> Some (JNumber 0)")
      case True
      then have "polling rt opts net tid k c = Some (Failed response, c1)"
        using lt p Inr by (simp add: polling.simps)
      then show ?thesis by (rule stop)
    next
      case ok: False
      show ?thesis
      proof (cases "field ''status'' response = Some (JString ''ready'')")
        case True
        then have "polling rt opts net tid k c = Some (Ready response, c1)"
          using lt p Inr ok by (simp add: polling.simps)
        then show ?thesis by (rule stop)
      next
        case False
        define c2 where "c2 = trace (Wait (pollingInterval opts)) c1"
        have rec: "polling rt opts net tid k c = polling rt opts net tid (Suc k) c2"
          using lt p Inr ok False by (simp add: polling.simps [of rt opts net tid k] c2_def)
        obtain out c' xs2 where r2: "polling rt opts net tid (Suc k) c2 = Some (out, c')"
          and xs2: "calls c' = calls c2 @ xs2"
          and polls2: "polls xs2 \<le> maxAttempts opts - Suc k"
          and len2: "length (caughtRequests xs2) \<le> maxAttempts opts - Suc k"
          and all2: "\<forall>q \<in> set (caughtRequests xs2).
             req_path q = ''/getTaskResult'' \<and> req_data q = getTaskResult_body rt opts tid"
          using Suc.hyps(1) [OF n, of c2] by blast
        have calls: "calls c' = calls c @ (xs1 @ Wait (pollingInterval opts) # xs2)"
          using xs1 xs2 by (simp add: c2_def)
        have cr: "caughtRequests (xs1 @ Wait (pollingInterval opts) # xs2)
            = caughtRequests xs1 @ caughtRequests xs2"
          by (simp add: caughtRequests_append)
        have "polls (xs1 @ Wait (pollingInterval opts) # xs2) = polls xs1 + polls xs2"
          by (simp add: polls_def cr)
        then have pb: "polls (xs1 @ Wait (pollingInterval opts) # xs2) \<le> maxAttempts opts - k"
          using polls1 polls2 lt by simp
        have lb: "length (caughtRequests (xs1 @ Wait (pollingInterval opts) # xs2))
            \<le> maxAttempts opts - k"
          using len1 len2 lt by (simp add: cr)
        have ab: "\<forall>q \<in> set (caughtRequests (xs1 @ Wait (pollingInterval opts) # xs2)).
            req_path q = ''/getTaskResult'' \<and> req_data q = getTaskResult_body rt opts tid"
          using all1 all2 by (auto simp: cr)
        show ?thesis
          using rec r2 calls pb lb ab
          by (intro exI [of _ out] exI [of _ c']
              exI [of _ "xs1 @ Wait (pollingInterval opts) # xs2"]) simp
      qed
    qed
  qed
qed

text \<open>
  Against a result endpoint that is never ready, the loop started on a stored socket
  polls once per remaining attempt and then times out.
\<close>

lemma polling_busy:
  assumes busy: "\<forall>i. \<exists>j. answers rt (answer (net (Suc i))) j
                   \<and> field ''errorId'' j = Some (JNumber 0)
                   \<and> field ''status'' j \<noteq> Some (JString ''ready'')"
  shows "socket c \<noteq> None \<Longrightarrow> k \<le> maxAttempts opts \<Longrightarrow>
         \<exists>c' xs. polling rt opts net tid k c = Some (TimedOut (maxAttempts opts), c')
           \<and> calls c' = calls c @ xs \<and> polls xs = maxAttempts opts - k"
proof (induction n \<equiv> "maxAttempts opts - k" arbitrary: k c)
  case 0
  then have "k = maxAttempts opts" by simp
  then have "polling rt opts net tid k c = Some (TimedOut (maxAttempts opts), c)"
    by (simp add: polling.simps)
  then show ?case using \<open>k = maxAttempts opts\<close> by simp
next
  case (Suc n)
  then have lt: "\<not> maxAttempts opts \<le> k" and n: "n = maxAttempts opts - Suc k"
    and le: "Suc k \<le> maxAttempts opts"
    by auto
  obtain j where a: "answers rt (answer (net (Suc k))) j"
    and ok: "field ''errorId'' j = Some (JNumber 0)"
    and nr: "field ''status'' j \<noteq> Some (JString ''ready'')"
    using busy by blast
  obtain c1 where p: "post rt GetTaskResult (getTaskResult_body rt opts tid) (net (Suc k)) c
      = Some (Inr j, c1)"
    using post_answers [of "net (Suc k)" c rt j GetTaskResult] a Suc.prems(1) by blast
  obtain ys where ys: "calls c1
        = calls c @ Https_request
            (request_options c GetTaskResult (getTaskResult_body rt opts tid)) # ys"
    and none: "caughtRequests ys = []" and s1: "socket c1 = socket c"
    using post_live_calls [OF Suc.prems(1) p] by blast
  define c2 where "c2 = trace (Wait (pollingInterval opts)) c1"
  have s2: "socket c2 \<noteq> None"
    using s1 Suc.prems(1) by (simp add: c2_def)
  have rec: "polling rt opts net tid k c = polling rt opts net tid (Suc k) c2"
    using lt p ok nr by (simp add: polling.simps [of rt opts net tid k] c2_def)
  obtain c' xs2 where r2: "polling rt opts net tid (Suc k) c2
        = Some (TimedOut (maxAttempts opts), c')"
    and xs2: "calls c' = calls c2 @ xs2"
    and polls2: "polls xs2 = maxAttempts opts - Suc k"
    using Suc.hyps(1) [OF n s2 le] by blast
  let ?xs = "(Https_request (request_options c GetTaskResult (getTaskResult_body rt opts tid))
               # ys) @ Wait (pollingInterval opts) # xs2"
  have calls: "calls c' = calls c @ ?xs"
    using ys xs2 by (simp add: c2_def)
  have "polls ?xs
      = polls (Https_request
                 (request_options c GetTaskResult (getTaskResult_body rt opts tid)) # ys)
        + polls (Wait (pollingInterval opts) # xs2)"
    by (rule polls_append)
  moreover have "polls (Wait (pollingInterval opts) # xs2) = polls xs2"
    by (simp add: polls_def)
  ultimately have "polls ?xs = 1 + polls xs2"
    using polls_one_request [OF none, of c "getTaskResult_body rt opts tid"]
    by simp
  then have "polls ?xs = maxAttempts opts - k"
    using polls2 le by simp
  then show ?case
    using rec r2 calls by (intro exI [of _ c'] exI [of _ ?xs]) simp
qed

lemma post_connect_calls:
  assumes "first_event ns = Ev_connect \<or> socket c \<noteq> None"
    and "post rt m d ns c = Some (r, c')"
  shows "\<exists>xs q. calls c' = calls c @ xs \<and> caughtRequests xs = [q]
           \<and> req_path q = ''/'' @ method_name m \<and> req_data q = d"
proof (cases "socket c")
  case (Some s)
  then have "socket c \<noteq> None" by simp
  from post_live_calls [OF this assms(2)] show ?thesis
    by (auto simp: request_options_def)
next
  case None
  then have ev: "first_event ns = Ev_connect"
    using assms(1) by simp
  define c2 where "c2 = on_socket (length (connects c)) Ev_connect (snd (netConnect c))"
  have res: "connects c2 ! length (connects c) = Resolved ()"
    by (simp add: c2_def netConnect_def Let_def settle_def nth_append)
  have calls2: "calls c2 = calls c @ [Net_connect (clientPort (url c)) (hostname (url c))]"
    by (simp add: c2_def netConnect_def Let_def)
  have "post rt m d ns c = Some (postJSON rt m d (answer ns) c2)"
    using None ev res
    by (simp add: post_def netConnectOrUse_def netConnect_def Let_def c2_def)
  then have "c' = snd (postJSON rt m d (answer ns) c2)"
    using assms(2) by (cases "postJSON rt m d (answer ns) c2") auto
  then obtain ys where "calls c' = calls c2 @ Https_request (request_options c2 m d) # ys"
    and "caughtRequests ys = []"
    using postJSON_calls [of rt m d "answer ns" c2] by auto
  then show ?thesis
    using calls2 by (auto simp: request_options_def)
qed

subsection \<open>The request bodies, character by character\<close>

lemma quote_clientKey: \<open>quote ''clientKey'' = ''"clientKey"''\<close>
  by (simp add: quote_def)

lemma quote_task: \<open>quote ''task'' = ''"task"''\<close>
  by (simp add: quote_def)

lemma quote_softId: \<open>quote ''softId'' = ''"softId"''\<close>
  by (simp add: quote_def)

lemma quote_taskId: \<open>quote ''taskId'' = ''"taskId"''\<close>
  by (simp add: quote_def)

lemma Number_toString_53: "Number_toString rt 53 = ''53''"
  by (simp add: Number_toString_def string_of_nat.simps)

lemma getBalance_body_eq:
  \<open>getBalance_body rt opts = ''{"clientKey":'' @ quote (clientKey opts) @ ''}''\<close>
  by (simp add: getBalance_body_def calcJSONData_def quote_clientKey)

lemma createTask_body_eq:
  \<open>createTask_body rt opts task =
     ''{"clientKey":'' @ quote (clientKey opts) @ '',"task":'' @ JSON_stringify rt task
       @ '',"softId":53}''\<close>
  by (simp add: createTask_body_def calcJSONData_def quote_clientKey quote_task quote_softId
      Number_toString_53)

lemma getTaskResult_body_eq:
  \<open>getTaskResult_body rt opts taskId =
     ''{"clientKey":'' @ quote (clientKey opts) @ '',"taskId":'' @ JSON_stringify rt taskId
       @ ''}''\<close>
  by (simp add: getTaskResult_body_def calcJSONData_def quote_clientKey quote_taskId)

lemma quote_test_key:
  \<open>quote ''<your capmonster.cloud API key>'' = ''"<your capmonster.cloud API key>"''\<close>
  by (simp add: quote_def)

lemma stringify_test_task:
  \<open>JSON_stringify rt test_task =
     ''{"type":"NoCaptchaTaskProxyless","websiteURL":"https://lessons.zennolab.com/captchas/recaptcha/v2_simple.php?level=high","websiteKey":"6Lcg7CMUAAAAANphynKgn9YAgA4tQ2KI_iqRyTwd"}''\<close>
  by (simp add: test_task_def RecaptchaV2ProxylessRequest_def quote_def)

lemma stringify_7654321: "JSON_stringify rt (JNumber 7654321) = ''7654321''"
  by (simp add: Number_toString_def string_of_nat.simps)

subsection \<open>Runs of Solve\<close>

text \<open>
  Every run of \<open>Solve\<close> returns. It polls at most \<open>maxAttempts\<close> times; whatever it
  sends is a \<^verbatim>\<open>createTask\<close> with the body of the task, or a \<^verbatim>\<open>getTaskResult\<close>
  with the body built from the task identifier of the \<^verbatim>\<open>createTask\<close> answer; and
  when the socket connects, the first request sent is the \<^verbatim>\<open>createTask\<close>.
\<close>

lemma Solve_run:
  "\<exists>out c' xs. Solve rt opts task net c = Some (out, c') \<and> calls c' = calls c @ xs
     \<and> polls xs \<le> maxAttempts opts
     \<and> (\<forall>q \<in> set (caughtRequests xs).
           (req_path q = ''/createTask'' \<and> req_data q = createTask_body rt opts task)
           \<or> (req_path q = ''/getTaskResult''
               \<and> (\<exists>created c1 tid.
                     post rt CreateTask (createTask_body rt opts task) (net 0) c
                       = Some (Inr created, c1)
                     \<and> field ''taskId'' created = Some tid
                     \<and> req_data q = getTaskResult_body rt opts tid)))
     \<and> (first_event (net 0) = Ev_connect \<or> socket c \<noteq> None \<longrightarrow>
           (\<exists>q qs. caughtRequests xs = q # qs \<and> req_path q = ''/createTask''
                  \<and> req_data q = createTask_body rt opts task))"
proof -
  let ?body = "createTask_body rt opts task"
  obtain r c1 where p: "post rt CreateTask ?body (net 0) c = Some (r, c1)"
    using post_total [of rt CreateTask ?body "net 0" c]
    by (cases "post rt CreateTask ?body (net 0) c") auto
  obtain xs1 where xs1: "calls c1 = calls c @ xs1"
    and one: "caughtRequests xs1 = []
        \<or> (\<exists>q. caughtRequests xs1 = [q] \<and> req_path q = ''/'' @ method_name CreateTask
                \<and> req_data q = ?body)"
    using post_calls [OF p] by auto
  have f1: "polls xs1 = 0"
    using one by (auto simp: polls_def)
  have f2: "\<forall>q \<in> set (caughtRequests xs1). req_path q = ''/createTask'' \<and> req_data q = ?body"
    using one by auto
  have f3: "\<exists>q. caughtRequests xs1 = [q] \<and> req_path q = ''/createTask'' \<and> req_data q = ?body"
    if h: "first_event (net 0) = Ev_connect \<or> socket c \<noteq> None"
  proof -
    obtain ys q where "calls c1 = calls c @ ys" and q: "caughtRequests ys = [q]"
      "req_path q = ''/'' @ method_name CreateTask" "req_data q = ?body"
      using post_connect_calls [OF h p] by blast
    then have "ys = xs1" using xs1 by simp
    then show ?thesis using q by simp
  qed
  have stop: ?thesis if "Solve rt opts task net c = Some (out, c1)" for out
    using that xs1 f1 f2 f3
    by (intro exI [of _ out] exI [of _ c1] exI [of _ xs1]) auto
  show ?thesis
  proof (cases r)
    case (Inl err)
    then have "Solve rt opts task net c = Some (Threw err, c1)"
      using p by (simp add: Solve_def)
    then show ?thesis by (rule stop)
  next
    case (Inr created)
    show ?thesis
    proof (cases "field ''errorId'' created \<noteq> Some (JNumber 0)")
      case True
      then have "Solve rt opts task net c = Some (Failed created, c1)"
        using p Inr by (simp add: Solve_def)
      then show ?thesis by (rule stop)
    next
      case ok: False
      show ?thesis
      proof (cases "field ''taskId'' created")
        case None
        then have "Solve rt opts task net c = Some (Failed created, c1)"
          using p Inr ok by (simp add: Solve_def)
        then show ?thesis by (rule stop)
      next
        case (Some tid)
        define c2 where "c2 = trace (Wait (firstDelay opts)) c1"
        have s: "Solve rt opts task net c = polling rt opts net tid 0 c2"
          using p Inr ok Some by (simp add: Solve_def c2_def)
        obtain out c' xs2 where r2: "polling rt opts net tid 0 c2 = Some (out, c')"
          and xs2: "calls c' = calls c2 @ xs2"
          and polls2: "polls xs2 \<le> maxAttempts opts - 0"
          and all2: "\<forall>q \<in> set (caughtRequests xs2).
             req_path q = ''/getTaskResult'' \<and> req_data q = getTaskResult_body rt opts tid"
          using polling_run [of rt opts net tid 0 c2] by blast
        let ?xs = "xs1 @ Wait (firstDelay opts) # xs2"
        have calls: "calls c' = calls c @ ?xs"
          using xs1 xs2 by (simp add: c2_def)
        have cr: "caughtRequests ?xs = caughtRequests xs1 @ caughtRequests xs2"
          by (simp add: caughtRequests_append)
        have "polls ?xs = polls xs1 + polls (Wait (firstDelay opts) # xs2)"
          by (rule polls_append)
        moreover have "polls (Wait (firstDelay opts) # xs2) = polls xs2"
          by (simp add: polls_def)
        ultimately have pb: "polls ?xs \<le> maxAttempts opts"
          using f1 polls2 by simp
        have ab: "\<forall>q \<in> set (caughtRequests ?xs).
            (req_path q = ''/createTask'' \<and> req_data q = ?body)
            \<or> (req_path q = ''/getTaskResult''
                \<and> (\<exists>created c1 tid.
                      post rt CreateTask ?body (net 0) c = Some (Inr created, c1)
                      \<and> field ''taskId'' created = Some tid
                      \<and> req_data q = getTaskResult_body rt opts tid))"
        proof
          fix q
          assume "q \<in> set (caughtRequests ?xs)"
          then consider "q \<in> set (caughtRequests xs1)" | "q \<in> set (caughtRequests xs2)"
            by (auto simp: cr)
          then show "(req_path q = ''/createTask'' \<and> req_data q = ?body)
            \<or> (req_path q = ''/getTaskResult''
                \<and> (\<exists>created c1 tid.
                      post rt CreateTask ?body (net 0) c = Some (Inr created, c1)
                      \<and> field ''taskId'' created = Some tid
                      \<and> req_data q = getTaskResult_body rt opts tid))"
          proof cases
            case 1
            then show ?thesis using f2 by blast
          next
            case 2
            then have "req_path q = ''/getTaskResult''"
              and "req_data q = getTaskResult_body rt opts tid"
              using all2 by auto
            then show ?thesis using p Inr Some by blast
          qed
        qed
        have first: "\<exists>q qs. caughtRequests ?xs = q # qs \<and> req_path q = ''/createTask''
            \<and> req_data q = ?body"
          if "first_event (net 0) = Ev_connect \<or> socket c \<noteq> None"
          using f3 [OF that] by (auto simp: cr)
        show ?thesis
          using s r2 calls pb ab first
          by (intro exI [of _ out] exI [of _ c'] exI [of _ ?xs]) simp
      qed
    qed
  qed
qed

lemma new_calls_append: "calls c' = calls c @ xs \<Longrightarrow> new_calls c c' = xs"
  by (simp add: new_calls_def)

subsection \<open>Facts about the scenarios\<close>

lemma answers_ok_response:
  "JSON_parse rt (toString_utf8 rt body) = Inr j \<Longrightarrow> answers rt (Inr (ok_response body)) j"
  by (simp add: answers_def ok_response_def)

lemma getBalance_ok:
  assumes "first_event ns = Ev_connect \<or> socket c \<noteq> None"
    and "answers rt (answer ns) response"
    and "field ''errorId'' response = Some (JNumber 0)"
  shows "\<exists>c'. getBalance rt opts ns c = Some (Ready response, c')
           \<and> map req_data (caughtRequests (new_calls c c')) = [getBalance_body rt opts]"
proof -
  obtain c' where p: "post rt GetBalance (getBalance_body rt opts) ns c = Some (Inr response, c')"
    using post_answers [OF assms(1, 2)] by blast
  obtain xs q where "calls c' = calls c @ xs" and "caughtRequests xs = [q]"
    and "req_data q = getBalance_body rt opts"
    using post_connect_calls [OF assms(1) p] by blast
  then have "map req_data (caughtRequests (new_calls c c')) = [getBalance_body rt opts]"
    by (simp add: new_calls_append)
  moreover have "getBalance rt opts ns c = Some (Ready response, c')"
    using p assms(3) by (simp add: getBalance_def)
  ultimately show ?thesis by (intro exI [of _ c']) simp
qed

text \<open>
  The run of the integration test: the \<^verbatim>\<open>createTask\<close> answer carries task 7654321, the
  first poll is answered \<^verbatim>\<open>ready\<close>.
\<close>

lemma Solve_test_net:
  assumes created: "JSON_parse rt (toString_utf8 rt created_body)
        = Inr (JObject [(''errorId'', JNumber 0), (''taskId'', JNumber 7654321)])"
    and ready: "JSON_parse rt (toString_utf8 rt ready_body) = Inr r"
    and ok: "field ''errorId'' r = Some (JNumber 0)"
    and st: "field ''status'' r = Some (JString ''ready'')"
    and attempts: "0 < maxAttempts opts"
  shows "\<exists>c'. Solve rt opts task test_net c = Some (Ready r, c')
           \<and> map req_data (caughtRequests (new_calls c c'))
               = [createTask_body rt opts task, getTaskResult_body rt opts (JNumber 7654321)]"
proof -
  let ?created = "JObject [(''errorId'', JNumber 0), (''taskId'', JNumber 7654321)]"
  let ?tid = "JNumber 7654321"
  have ev: "first_event (test_net 0) = Ev_connect \<or> socket c \<noteq> None"
    by (simp add: test_net_def served_def)
  have a0: "answers rt (answer (test_net 0)) ?created"
    using answers_ok_response [OF created] by (simp add: test_net_def served_def)
  have a1: "answers rt (answer (test_net (Suc 0))) r"
    using answers_ok_response [OF ready] by (simp add: test_net_def served_def)
  obtain c1 where p0: "post rt CreateTask (createTask_body rt opts task) (test_net 0) c
      = Some (Inr ?created, c1)"
    using post_answers [OF ev a0] by blast
  obtain xs1 q1 where xs1: "calls c1 = calls c @ xs1" and q1: "caughtRequests xs1 = [q1]"
    "req_data q1 = createTask_body rt opts task"
    using post_connect_calls [OF ev p0] by blast
  have s1: "socket c1 \<noteq> None"
    using post_Inr_socket [OF p0] .
  define c2 where "c2 = trace (Wait (firstDelay opts)) c1"
  have s2: "socket c2 \<noteq> None"
    using s1 by (simp add: c2_def)
  have solve: "Solve rt opts task test_net c = polling rt opts test_net ?tid 0 c2"
    using p0 by (simp add: Solve_def c2_def)
  have ev2: "first_event (test_net (Suc 0)) = Ev_connect \<or> socket c2 \<noteq> None"
    using s2 by simp
  obtain c3 where p1: "post rt GetTaskResult (getTaskResult_body rt opts ?tid)
      (test_net (Suc 0)) c2 = Some (Inr r, c3)"
    using post_answers [OF ev2 a1] by blast
  obtain ys where ys: "calls c3 = calls c2
        @ Https_request (request_options c2 GetTaskResult (getTaskResult_body rt opts ?tid)) # ys"
    and none: "caughtRequests ys = []"
    using post_live_calls [OF s2 p1] by blast
  have poll: "polling rt opts test_net ?tid 0 c2 = Some (Ready r, c3)"
    using attempts p1 ok st by (simp add: polling.simps [of rt opts test_net ?tid 0])
  have "calls c3 = calls c @ (xs1 @ Wait (firstDelay opts)
      # Https_request (request_options c2 GetTaskResult (getTaskResult_body rt opts ?tid)) # ys)"
    using xs1 ys by (simp add: c2_def)
  then have "new_calls c c3 = xs1 @ Wait (firstDelay opts)
      # Https_request (request_options c2 GetTaskResult (getTaskResult_body rt opts ?tid)) # ys"
    by (rule new_calls_append)
  then have "map req_data (caughtRequests (new_calls c c3))
      = [createTask_body rt opts task, getTaskResult_body rt opts ?tid]"
    using q1 none by (simp add: caughtRequests_append request_options_def)
  then show ?thesis
    using solve poll by simp
qed

subsection \<open>The polling orchestrator and the request bodies\<close>

text \<open>
  C1. Every run of \<open>Solve\<close> returns and sends at most \<open>maxAttempts\<close>
  \<^verbatim>\<open>getTaskResult\<close> requests, whatever the network does. If the \<^verbatim>\<open>createTask\<close>
  succeeds and every answer of the result endpoint is a success answer whose status is
  not \<^verbatim>\<open>ready\<close>, the run ends in \<open>TimedOut\<close>, an outcome of its own kind, after
  exactly \<open>maxAttempts\<close> polls.
\<close>

theorem polling_terminates:
  "(\<exists>out c'. Solve rt opts task net c = Some (out, c')
       \<and> polls (new_calls c c') \<le> maxAttempts opts)
   \<and> ((first_event (net 0) = Ev_connect \<or> socket c \<noteq> None)
        \<and> answers rt (answer (net 0)) created
        \<and> field ''errorId'' created = Some (JNumber 0)
        \<and> field ''taskId'' created = Some tid
        \<and> (\<forall>i. \<exists>j. answers rt (answer (net (Suc i))) j
                  \<and> field ''errorId'' j = Some (JNumber 0)
                  \<and> field ''status'' j \<noteq> Some (JString ''ready''))
       \<longrightarrow> (\<exists>c'. Solve rt opts task net c = Some (TimedOut (maxAttempts opts), c')
                 \<and> polls (new_calls c c') = maxAttempts opts))
   \<and> TimedOut n \<noteq> Failed response \<and> TimedOut n \<noteq> Threw err \<and> TimedOut n \<noteq> Ready response"
proof -
  have bounded: "\<exists>out c'. Solve rt opts task net c = Some (out, c')
      \<and> polls (new_calls c c') \<le> maxAttempts opts"
  proof -
    obtain out c' xs where "Solve rt opts task net c = Some (out, c')"
      and "calls c' = calls c @ xs" and "polls xs \<le> maxAttempts opts"
      using Solve_run [of rt opts task net c] by blast
    then show ?thesis
      by (auto simp: new_calls_append)
  qed
  have busy: "\<exists>c'. Solve rt opts task net c = Some (TimedOut (maxAttempts opts), c')
      \<and> polls (new_calls c c') = maxAttempts opts"
    if ev: "first_event (net 0) = Ev_connect \<or> socket c \<noteq> None"
      and a0: "answers rt (answer (net 0)) created"
      and ok: "field ''errorId'' created = Some (JNumber 0)"
      and tid: "field ''taskId'' created = Some tid"
      and never: "\<forall>i. \<exists>j. answers rt (answer (net (Suc i))) j
                  \<and> field ''errorId'' j = Some (JNumber 0)
                  \<and> field ''status'' j \<noteq> Some (JString ''ready'')"
  proof -
    obtain c1 where p0: "post rt CreateTask (createTask_body rt opts task) (net 0) c
        = Some (Inr created, c1)"
      using post_answers [OF ev a0] by blast
    obtain xs1 q1 where xs1: "calls c1 = calls c @ xs1" and q1: "caughtRequests xs1 = [q1]"
      "req_path q1 = ''/'' @ method_name CreateTask"
      using post_connect_calls [OF ev p0] by blast
    have polls1: "polls xs1 = 0"
      using q1 by (simp add: polls_def)
    define c2 where "c2 = trace (Wait (firstDelay opts)) c1"
    have s2: "socket c2 \<noteq> None"
      using post_Inr_socket [OF p0] by (simp add: c2_def)
    have solve: "Solve rt opts task net c = polling rt opts net tid 0 c2"
      using p0 ok tid by (simp add: Solve_def c2_def)
    obtain c' xs2 where r2: "polling rt opts net tid 0 c2
          = Some (TimedOut (maxAttempts opts), c')"
      and xs2: "calls c' = calls c2 @ xs2" and polls2: "polls xs2 = maxAttempts opts - 0"
      using polling_busy [OF never s2, of 0 opts tid] by blast
    have "calls c' = calls c @ (xs1 @ Wait (firstDelay opts) # xs2)"
      using xs1 xs2 by (simp add: c2_def)
    then have nc: "new_calls c c' = xs1 @ Wait (firstDelay opts) # xs2"
      by (rule new_calls_append)
    have "polls (xs1 @ Wait (firstDelay opts) # xs2)
        = polls xs1 + polls (Wait (firstDelay opts) # xs2)"
      by (rule polls_append)
    moreover have "polls (Wait (firstDelay opts) # xs2) = polls xs2"
      by (simp add: polls_def)
    ultimately have "polls (new_calls c c') = maxAttempts opts"
      using nc polls1 polls2 by simp
    then show ?thesis
      using solve r2 by simp
  qed
  show ?thesis
    using bounded busy by simp
qed

theorem polling_terminates_witness:
  "first_event (busy_net 0) = Ev_connect
   \<and> answers test_runtime (answer (busy_net 0))
       (JObject [(''errorId'', JNumber 0), (''taskId'', JNumber 7654321)])
   \<and> (\<forall>i. answers test_runtime (answer (busy_net (Suc i)))
             (JObject [(''errorId'', JNumber 0), (''status'', JString ''processing'')]))
   \<and> (\<exists>c'. Solve test_runtime (test_options 3) test_task busy_net (new_HttpClient test_url)
              = Some (TimedOut 3, c')
          \<and> polls (new_calls (new_HttpClient test_url) c') = 3)"
proof -
  let ?created = "JObject [(''errorId'', JNumber 0), (''taskId'', JNumber 7654321)]"
  let ?busy = "JObject [(''errorId'', JNumber 0), (''status'', JString ''processing'')]"
  have ev: "first_event (busy_net 0) = Ev_connect"
    by (simp add: busy_net_def served_def)
  have a0: "answers test_runtime (answer (busy_net 0)) ?created"
    by (simp add: busy_net_def served_def answers_def ok_response_def test_runtime_def
        test_parse_def balance_body_def created_body_def)
  have a: "answers test_runtime (answer (busy_net (Suc i))) ?busy" for i
    by (simp add: busy_net_def served_def answers_def ok_response_def test_runtime_def
        test_parse_def balance_body_def created_body_def ready_body_def processing_body_def)
  have never: "\<forall>i. \<exists>j. answers test_runtime (answer (busy_net (Suc i))) j
      \<and> field ''errorId'' j = Some (JNumber 0)
      \<and> field ''status'' j \<noteq> Some (JString ''ready'')"
  proof
    fix i
    have "field ''errorId'' ?busy = Some (JNumber 0)"
      and "field ''status'' ?busy \<noteq> Some (JString ''ready'')"
      by simp_all
    with a [of i] show "\<exists>j. answers test_runtime (answer (busy_net (Suc i))) j
      \<and> field ''errorId'' j = Some (JNumber 0)
      \<and> field ''status'' j \<noteq> Some (JString ''ready'')"
      by blast
  qed
  have "\<exists>c'. Solve test_runtime (test_options 3) test_task busy_net (new_HttpClient test_url)
              = Some (TimedOut (maxAttempts (test_options 3)), c')
          \<and> polls (new_calls (new_HttpClient test_url) c') = maxAttempts (test_options 3)"
    using polling_terminates
      [of test_runtime "test_options 3" test_task busy_net "new_HttpClient test_url"
          ?created "JNumber 7654321"]
      ev a0 never
    by simp
  then show ?thesis
    using ev a0 a by (simp add: test_options_def)
qed

text \<open>
  C7. The body of a \<^verbatim>\<open>createTask\<close> request is the text
  \<^verbatim>\<open>{"clientKey":K,"task":T,"softId":53}\<close> with \<open>K\<close> the quoted client key and
  \<open>T\<close> the serialisation of the task object, in this key order. In every run of
  \<open>Solve\<close> each \<^verbatim>\<open>createTask\<close> request sent carries that body, and when the socket
  connects it is the first request sent. For the key and the reCAPTCHA request of the
  integration test the body is, character by character, the one the test expects.
\<close>

theorem createTask_request_body:
  \<open>createTask_body rt opts task
     = ''{"clientKey":'' @ quote (clientKey opts) @ '',"task":'' @ JSON_stringify rt task
         @ '',"softId":53}''
   \<and> (\<exists>out c'. Solve rt opts task net c = Some (out, c')
         \<and> (\<forall>q \<in> set (caughtRequests (new_calls c c')).
               req_path q = ''/createTask'' \<longrightarrow> req_data q = createTask_body rt opts task)
         \<and> (first_event (net 0) = Ev_connect \<or> socket c \<noteq> None \<longrightarrow>
               (\<exists>q qs. caughtRequests (new_calls c c') = q # qs
                  \<and> req_path q = ''/createTask''
                  \<and> req_data q = createTask_body rt opts task)))
   \<and> createTask_body rt (test_options n) test_task
       = ''{"clientKey":"<your capmonster.cloud API key>","task":{"type":"NoCaptchaTaskProxyless","websiteURL":"https://lessons.zennolab.com/captchas/recaptcha/v2_simple.php?level=high","websiteKey":"6Lcg7CMUAAAAANphynKgn9YAgA4tQ2KI_iqRyTwd"},"softId":53}''\<close>
proof -
  obtain out c' xs where s: "Solve rt opts task net c = Some (out, c')"
    and xs: "calls c' = calls c @ xs"
    and all: "\<forall>q \<in> set (caughtRequests xs).
           (req_path q = ''/createTask'' \<and> req_data q = createTask_body rt opts task)
           \<or> (req_path q = ''/getTaskResult''
               \<and> (\<exists>created c1 tid.
                     post rt CreateTask (createTask_body rt opts task) (net 0) c
                       = Some (Inr created, c1)
                     \<and> field ''taskId'' created = Some tid
                     \<and> req_data q = getTaskResult_body rt opts tid))"
    and first: "first_event (net 0) = Ev_connect \<or> socket c \<noteq> None \<longrightarrow>
           (\<exists>q qs. caughtRequests xs = q # qs \<and> req_path q = ''/createTask''
                  \<and> req_data q = createTask_body rt opts task)"
    using Solve_run [of rt opts task net c] by blast
  have nc: "new_calls c c' = xs"
    using xs by (rule new_calls_append)
  have every: "\<forall>q \<in> set (caughtRequests (new_calls c c')).
      req_path q = ''/createTask'' \<longrightarrow> req_data q = createTask_body rt opts task"
    using all nc by auto
  have run: "\<exists>out c'. Solve rt opts task net c = Some (out, c')
         \<and> (\<forall>q \<in> set (caughtRequests (new_calls c c')).
               req_path q = ''/createTask'' \<longrightarrow> req_data q = createTask_body rt opts task)
         \<and> (first_event (net 0) = Ev_connect \<or> socket c \<noteq> None \<longrightarrow>
               (\<exists>q qs. caughtRequests (new_calls c c') = q # qs
                  \<and> req_path q = ''/createTask''
                  \<and> req_data q = createTask_body rt opts task))"
    using s every first nc by (intro exI [of _ out] exI [of _ c']) simp
  have test: \<open>createTask_body rt (test_options n) test_task
       = ''{"clientKey":"<your capmonster.cloud API key>","task":{"type":"NoCaptchaTaskProxyless","websiteURL":"https://lessons.zennolab.com/captchas/recaptcha/v2_simple.php?level=high","websiteKey":"6Lcg7CMUAAAAANphynKgn9YAgA4tQ2KI_iqRyTwd"},"softId":53}''\<close>
    by (simp add: createTask_body_eq test_options_def quote_test_key stringify_test_task)
  show ?thesis
    using createTask_body_eq [of rt opts task] run test by blast
qed

theorem createTask_request_body_witness:
  \<open>first_event (test_net 0) = Ev_connect
   \<and> (\<exists>out c' q qs.
         Solve test_runtime (test_options 3) test_task test_net (new_HttpClient test_url)
           = Some (out, c')
         \<and> caughtRequests (new_calls (new_HttpClient test_url) c') = q # qs
         \<and> req_path q = ''/createTask''
         \<and> req_data q
             = ''{"clientKey":"<your capmonster.cloud API key>","task":{"type":"NoCaptchaTaskProxyless","websiteURL":"https://lessons.zennolab.com/captchas/recaptcha/v2_simple.php?level=high","websiteKey":"6Lcg7CMUAAAAANphynKgn9YAgA4tQ2KI_iqRyTwd"},"softId":53}'')\<close>
proof -
  have ev: "first_event (test_net 0) = Ev_connect"
    by (simp add: test_net_def served_def)
  show ?thesis
    using ev createTask_request_body
      [of test_runtime "test_options 3" test_task test_net "new_HttpClient test_url" 3]
    by auto
qed

text \<open>
  C8. In every run of \<open>Solve\<close>, each \<^verbatim>\<open>getTaskResult\<close> request sent carries the text
  \<^verbatim>\<open>{"clientKey":K,"taskId":I}\<close>, where \<open>I\<close> serialises the \<^verbatim>\<open>taskId\<close> of the
  decoded \<^verbatim>\<open>createTask\<close> answer of that run. In the run of the integration test
  (answers with task 7654321, then \<^verbatim>\<open>ready\<close> with a solution; at least one attempt
  allowed) the client sends the \<^verbatim>\<open>createTask\<close>, then
  \<^verbatim>\<open>{"clientKey":"<your capmonster.cloud API key>","taskId":7654321}\<close>, and resolves
  with an object whose \<^verbatim>\<open>solution.gRecaptchaResponse\<close> is \<^verbatim>\<open>answer\<close>.
\<close>

theorem getTaskResult_request_body:
  \<open>(\<exists>out c'. Solve rt opts task net c = Some (out, c')
       \<and> (\<forall>q \<in> set (caughtRequests (new_calls c c')).
             req_path q = ''/getTaskResult'' \<longrightarrow>
               (\<exists>created c1 tid.
                  post rt CreateTask (createTask_body rt opts task) (net 0) c
                    = Some (Inr created, c1)
                  \<and> field ''taskId'' created = Some tid
                  \<and> req_data q
                      = ''{"clientKey":'' @ quote (clientKey opts) @ '',"taskId":''
                          @ JSON_stringify rt tid @ ''}'')))
   \<and> (JSON_parse rt (toString_utf8 rt created_body)
         = Inr (JObject [(''errorId'', JNumber 0), (''taskId'', JNumber 7654321)])
       \<and> JSON_parse rt (toString_utf8 rt ready_body)
           = Inr (JObject [(''errorId'', JNumber 0), (''status'', JString ''ready''),
                           (''solution'', JObject [(''gRecaptchaResponse'', JString ''answer'')])])
       \<and> 0 < maxAttempts opts
       \<and> clientKey opts = ''<your capmonster.cloud API key>''
      \<longrightarrow> (\<exists>r sol c'. Solve rt opts task test_net c = Some (Ready r, c')
             \<and> field ''solution'' r = Some sol
             \<and> field ''gRecaptchaResponse'' sol = Some (JString ''answer'')
             \<and> map req_data (caughtRequests (new_calls c c'))
                 = [createTask_body rt opts task,
                    ''{"clientKey":"<your capmonster.cloud API key>","taskId":7654321}'']))\<close>
proof -
  obtain out c' xs where s: "Solve rt opts task net c = Some (out, c')"
    and xs: "calls c' = calls c @ xs"
    and all: "\<forall>q \<in> set (caughtRequests xs).
           (req_path q = ''/createTask'' \<and> req_data q = createTask_body rt opts task)
           \<or> (req_path q = ''/getTaskResult''
               \<and> (\<exists>created c1 tid.
                     post rt CreateTask (createTask_body rt opts task) (net 0) c
                       = Some (Inr created, c1)
                     \<and> field ''taskId'' created = Some tid
                     \<and> req_data q = getTaskResult_body rt opts tid))"
    using Solve_run [of rt opts task net c] by blast
  have nc: "new_calls c c' = xs"
    using xs by (rule new_calls_append)
  have every: \<open>\<forall>q \<in> set (caughtRequests (new_calls c c')).
      req_path q = ''/getTaskResult'' \<longrightarrow>
        (\<exists>created c1 tid.
           post rt CreateTask (createTask_body rt opts task) (net 0) c = Some (Inr created, c1)
           \<and> field ''taskId'' created = Some tid
           \<and> req_data q
               = ''{"clientKey":'' @ quote (clientKey opts) @ '',"taskId":''
                   @ JSON_stringify rt tid @ ''}'')\<close>
  proof (intro ballI impI)
    fix q
    assume q: "q \<in> set (caughtRequests (new_calls c c'))" and path: "req_path q = ''/getTaskResult''"
    from q nc have "q \<in> set (caughtRequests xs)"
      by simp
    from all [rule_format, OF this] path obtain created c1 tid where
      "post rt CreateTask (createTask_body rt opts task) (net 0) c = Some (Inr created, c1)"
      "field ''taskId'' created = Some tid" "req_data q = getTaskResult_body rt opts tid"
      by auto
    then show \<open>\<exists>created c1 tid.
           post rt CreateTask (createTask_body rt opts task) (net 0) c = Some (Inr created, c1)
           \<and> field ''taskId'' created = Some tid
           \<and> req_data q
               = ''{"clientKey":'' @ quote (clientKey opts) @ '',"taskId":''
                   @ JSON_stringify rt tid @ ''}''\<close>
      unfolding getTaskResult_body_eq by blast
  qed
  have general: \<open>\<exists>out c'. Solve rt opts task net c = Some (out, c')
       \<and> (\<forall>q \<in> set (caughtRequests (new_calls c c')).
             req_path q = ''/getTaskResult'' \<longrightarrow>
               (\<exists>created c1 tid.
                  post rt CreateTask (createTask_body rt opts task) (net 0) c
                    = Some (Inr created, c1)
                  \<and> field ''taskId'' created = Some tid
                  \<and> req_data q
                      = ''{"clientKey":'' @ quote (clientKey opts) @ '',"taskId":''
                          @ JSON_stringify rt tid @ ''}''))\<close>
    using s every by (intro exI [of _ out] exI [of _ c']) simp
  have scenario: \<open>\<exists>r sol c'. Solve rt opts task test_net c = Some (Ready r, c')
             \<and> field ''solution'' r = Some sol
             \<and> field ''gRecaptchaResponse'' sol = Some (JString ''answer'')
             \<and> map req_data (caughtRequests (new_calls c c'))
                 = [createTask_body rt opts task,
                    ''{"clientKey":"<your capmonster.cloud API key>","taskId":7654321}'']\<close>
    if created: "JSON_parse rt (toString_utf8 rt created_body)
         = Inr (JObject [(''errorId'', JNumber 0), (''taskId'', JNumber 7654321)])"
      and ready: "JSON_parse rt (toString_utf8 rt ready_body)
           = Inr (JObject [(''errorId'', JNumber 0), (''status'', JString ''ready''),
                           (''solution'', JObject [(''gRecaptchaResponse'', JString ''answer'')])])"
      and attempts: "0 < maxAttempts opts"
      and key: "clientKey opts = ''<your capmonster.cloud API key>''"
  proof -
    let ?r = "JObject [(''errorId'', JNumber 0), (''status'', JString ''ready''),
                       (''solution'', JObject [(''gRecaptchaResponse'', JString ''answer'')])]"
    have ok: "field ''errorId'' ?r = Some (JNumber 0)"
      and st: "field ''status'' ?r = Some (JString ''ready'')"
      by simp_all
    obtain c' where run: "Solve rt opts task test_net c = Some (Ready ?r, c')"
      and sent: "map req_data (caughtRequests (new_calls c c'))
               = [createTask_body rt opts task, getTaskResult_body rt opts (JNumber 7654321)]"
      using Solve_test_net [OF created ready ok st attempts, of task c] by auto
    have body: \<open>getTaskResult_body rt opts (JNumber 7654321)
        = ''{"clientKey":"<your capmonster.cloud API key>","taskId":7654321}''\<close>
      by (simp add: getTaskResult_body_eq key quote_test_key stringify_7654321
          del: JSON_stringify.simps)
    have "field ''solution'' ?r = Some (JObject [(''gRecaptchaResponse'', JString ''answer'')])"
      and "field ''gRecaptchaResponse'' (JObject [(''gRecaptchaResponse'', JString ''answer'')])
        = Some (JString ''answer'')"
      by simp_all
    then show ?thesis
      using run sent body
      by (intro exI [of _ ?r] exI [of _ "JObject [(''gRecaptchaResponse'', JString ''answer'')]"]
          exI [of _ c']) simp
  qed
  show ?thesis
    using general scenario by blast
qed

theorem getTaskResult_request_body_witness:
  \<open>JSON_parse test_runtime (toString_utf8 test_runtime created_body)
     = Inr (JObject [(''errorId'', JNumber 0), (''taskId'', JNumber 7654321)])
   \<and> JSON_parse test_runtime (toString_utf8 test_runtime ready_body)
       = Inr (JObject [(''errorId'', JNumber 0), (''status'', JString ''ready''),
                       (''solution'', JObject [(''gRecaptchaResponse'', JString ''answer'')])])
   \<and> 0 < maxAttempts (test_options 3)
   \<and> clientKey (test_options 3) = ''<your capmonster.cloud API key>''
   \<and> (\<exists>r sol c'.
         Solve test_runtime (test_options 3) test_task test_net (new_HttpClient test_url)
           = Some (Ready r, c')
         \<and> field ''solution'' r = Some sol
         \<and> field ''gRecaptchaResponse'' sol = Some (JString ''answer'')
         \<and> map req_data (caughtRequests (new_calls (new_HttpClient test_url) c'))
             = [createTask_body test_runtime (test_options 3) test_task,
                ''{"clientKey":"<your capmonster.cloud API key>","taskId":7654321}''])\<close>
proof -
  have created: "JSON_parse test_runtime (toString_utf8 test_runtime created_body)
     = Inr (JObject [(''errorId'', JNumber 0), (''taskId'', JNumber 7654321)])"
    by (simp add: test_runtime_def test_parse_def balance_body_def created_body_def)
  have ready: "JSON_parse test_runtime (toString_utf8 test_runtime ready_body)
       = Inr (JObject [(''errorId'', JNumber 0), (''status'', JString ''ready''),
                       (''solution'', JObject [(''gRecaptchaResponse'', JString ''answer'')])])"
    by (simp add: test_runtime_def test_parse_def balance_body_def created_body_def
        ready_body_def)
  have attempts: "0 < maxAttempts (test_options 3)"
    and key: "clientKey (test_options 3) = ''<your capmonster.cloud API key>''"
    by (simp_all add: test_options_def)
  show ?thesis
    using created ready attempts key getTaskResult_request_body
      [of test_runtime "test_options 3" test_task test_net "new_HttpClient test_url"]
    by blast
qed

text \<open>
  C9. When the network answers the \<^verbatim>\<open>getBalance\<close> request with a response that
  decodes to a success object with a \<^verbatim>\<open>balance\<close>, \<open>getBalance\<close> resolves with an
  object whose \<^verbatim>\<open>balance\<close> is that decoded value, and the one request it sent has the
  body \<^verbatim>\<open>{"clientKey":K}\<close>. For the answer \<^verbatim>\<open>{"errorId":0,"balance":345.678}\<close> of
  the integration test the balance is 345.678 and the body is
  \<^verbatim>\<open>{"clientKey":"<your capmonster.cloud API key>"}\<close>.
\<close>

theorem getBalance_returns_balance:
  \<open>((first_event ns = Ev_connect \<or> socket c \<noteq> None)
      \<and> answers rt (answer ns) response
      \<and> field ''errorId'' response = Some (JNumber 0)
      \<and> field ''balance'' response = Some b
     \<longrightarrow> (\<exists>v c'. getBalance rt opts ns c = Some (Ready v, c')
            \<and> field ''balance'' v = Some b
            \<and> map req_data (caughtRequests (new_calls c c'))
                = [''{"clientKey":'' @ quote (clientKey opts) @ ''}'']))
   \<and> (JSON_parse rt (toString_utf8 rt balance_body)
         = Inr (JObject [(''errorId'', JNumber 0), (''balance'', JNumber 345.678)])
       \<and> clientKey opts = ''<your capmonster.cloud API key>''
      \<longrightarrow> (\<exists>v c'. getBalance rt opts (served balance_body) c = Some (Ready v, c')
             \<and> field ''balance'' v = Some (JNumber 345.678)
             \<and> map req_data (caughtRequests (new_calls c c'))
                 = [''{"clientKey":"<your capmonster.cloud API key>"}'']))\<close>
proof -
  have general: \<open>\<exists>v c'. getBalance rt opts ns c = Some (Ready v, c')
            \<and> field ''balance'' v = Some b
            \<and> map req_data (caughtRequests (new_calls c c'))
                = [''{"clientKey":'' @ quote (clientKey opts) @ ''}'']\<close>
    if h1: "first_event ns = Ev_connect \<or> socket c \<noteq> None"
      and h2: "answers rt (answer ns) response"
      and h3: "field ''errorId'' response = Some (JNumber 0)"
      and bal: "field ''balance'' response = Some b"
      for ns c response b
  proof -
    obtain c' where "getBalance rt opts ns c = Some (Ready response, c')"
      and "map req_data (caughtRequests (new_calls c c')) = [getBalance_body rt opts]"
      using getBalance_ok [OF h1 h2 h3, of opts] by auto
    then show ?thesis
      using bal unfolding getBalance_body_eq
      by (intro exI [of _ response] exI [of _ c']) simp
  qed
  have scenario: \<open>\<exists>v c'. getBalance rt opts (served balance_body) c = Some (Ready v, c')
             \<and> field ''balance'' v = Some (JNumber 345.678)
             \<and> map req_data (caughtRequests (new_calls c c'))
                 = [''{"clientKey":"<your capmonster.cloud API key>"}'']\<close>
    if parse: "JSON_parse rt (toString_utf8 rt balance_body)
         = Inr (JObject [(''errorId'', JNumber 0), (''balance'', JNumber 345.678)])"
      and key: "clientKey opts = ''<your capmonster.cloud API key>''"
  proof -
    let ?v = "JObject [(''errorId'', JNumber 0), (''balance'', JNumber 345.678)]"
    have ev: "first_event (served balance_body) = Ev_connect \<or> socket c \<noteq> None"
      by (simp add: served_def)
    have a: "answers rt (answer (served balance_body)) ?v"
      using answers_ok_response [OF parse] by (simp add: served_def)
    have ok: "field ''errorId'' ?v = Some (JNumber 0)"
      and bal: "field ''balance'' ?v = Some (JNumber 345.678)"
      by simp_all
    show ?thesis
      using general [OF ev a ok bal] by (simp add: key quote_test_key)
  qed
  show ?thesis
    using general [of ns c response b] scenario by blast
qed

theorem getBalance_returns_balance_witness:
  \<open>JSON_parse test_runtime (toString_utf8 test_runtime balance_body)
     = Inr (JObject [(''errorId'', JNumber 0), (''balance'', JNumber 345.678)])
   \<and> clientKey (test_options 3) = ''<your capmonster.cloud API key>''
   \<and> (\<exists>v c'. getBalance test_runtime (test_options 3) (served balance_body)
                (new_HttpClient test_url) = Some (Ready v, c')
          \<and> field ''balance'' v = Some (JNumber 345.678)
          \<and> map req_data (caughtRequests (new_calls (new_HttpClient test_url) c'))
              = [''{"clientKey":"<your capmonster.cloud API key>"}''])\<close>
proof -
  have parse: "JSON_parse test_runtime (toString_utf8 test_runtime balance_body)
     = Inr (JObject [(''errorId'', JNumber 0), (''balance'', JNumber 345.678)])"
    by (simp add: test_runtime_def test_parse_def)
  have key: "clientKey (test_options 3) = ''<your capmonster.cloud API key>''"
    by (simp add: test_options_def)
  show ?thesis
    using parse key getBalance_returns_balance
      [of "served balance_body" "new_HttpClient test_url" test_runtime _ _ "test_options 3"]
    by blast
qed

end
